theory Spec2Isabelle
  imports Main "HOL-Library.Word" "HOL-Library.Sublist"
begin

section \<open>Error model\<close>

text \<open>
  \<^verbatim>\<open>class IOError : public std::runtime_error\<close>: the only state of the exception is the
  string returned by \<^verbatim>\<open>what()\<close>; the constructor prefixes its argument with
  \<^verbatim>\<open>"IOError: "\<close>. A function that may throw returns \<open>IOError + 'a\<close>.
\<close>

datatype IOError = runtime_error (what: string)

definition IOError :: "string \<Rightarrow> IOError" where
  "IOError msg = runtime_error (''IOError: '' @ msg)"

section \<open>The environment: files and \<^verbatim>\<open>std::fstream\<close>\<close>

text \<open>
  The class under verification wraps a \<^verbatim>\<open>std::fstream\<close>. The part of the standard library
  it calls is modelled here, after the C++ standard's description of \<^verbatim>\<open>basic_filebuf\<close>,
  \<^verbatim>\<open>basic_istream\<close> and \<^verbatim>\<open>basic_ostream\<close>:
  \<^item> a file system is a map from paths to byte strings (\<open>char\<close> is a byte): the files that
    exist and can be read; beside it stands the set of the paths that the operating system
    refuses to open for writing (the empty path, a path in a missing directory, a directory,
    a file or directory without write permission);
  \<^item> an open file is identified by a descriptor; the set of descriptors in use is part of the
    world, so that closing and leaking a handle are observable;
  \<^item> output is written through: the buffering of \<^verbatim>\<open>basic_filebuf\<close> is not observable by a
    single-threaded program that closes a stream before the file is opened again;
  \<^item> a file buffer has one position, shared by reading and writing.
\<close>

record openmode =
  ios_binary :: bool
  ios_in :: bool
  ios_out :: bool
  ios_trunc :: bool
  ios_app :: bool

definition no_flags :: openmode where
  "no_flags = \<lparr>ios_binary = False, ios_in = False, ios_out = False,
                 ios_trunc = False, ios_app = False\<rparr>"

datatype seekdir = ios_beg | ios_cur | ios_end

text \<open>The \<^verbatim>\<open>fopen\<close> mode strings of the table in [filebuf.members].\<close>

datatype cmode = mode_r | mode_w | mode_a | mode_r_plus | mode_w_plus | mode_a_plus

definition fopen_mode :: "openmode \<Rightarrow> cmode option" where
  "fopen_mode m =
     (if \<not> ios_in m \<and> ios_out m \<and> \<not> ios_trunc m \<and> \<not> ios_app m then Some mode_w
      else if \<not> ios_in m \<and> \<not> ios_trunc m \<and> ios_app m then Some mode_a
      else if \<not> ios_in m \<and> ios_out m \<and> ios_trunc m \<and> \<not> ios_app m then Some mode_w
      else if ios_in m \<and> \<not> ios_out m \<and> \<not> ios_trunc m \<and> \<not> ios_app m then Some mode_r
      else if ios_in m \<and> ios_out m \<and> \<not> ios_trunc m \<and> \<not> ios_app m then Some mode_r_plus
      else if ios_in m \<and> ios_out m \<and> ios_trunc m \<and> \<not> ios_app m then Some mode_w_plus
      else if ios_in m \<and> \<not> ios_trunc m \<and> ios_app m then Some mode_a_plus
      else None)"

record world =
  files :: "string \<rightharpoonup> string"
  unwritable :: "string set"
  open_fds :: "nat set"
  next_fd :: nat

record filebuf =
  fd :: nat
  fb_path :: string
  fb_mode :: openmode
  fb_pos :: nat

text \<open>
  A stream is its file buffer (\<open>None\<close> when no file is open) and the three bits of
  \<^verbatim>\<open>rdstate()\<close>.
\<close>

record fstream =
  rdbuf :: "filebuf option"
  failbit :: bool
  eofbit :: bool
  badbit :: bool

definition NUL :: char where
  "NUL = CHR 0x00"

definition newline :: char where
  "newline = CHR 0x0A"

definition content_of :: "world \<Rightarrow> string \<Rightarrow> string" where
  "content_of w p = (case files w p of None \<Rightarrow> [] | Some c \<Rightarrow> c)"

text \<open>
  \<^verbatim>\<open>basic_filebuf::open\<close>: \<^verbatim>\<open>"r"\<close> and \<^verbatim>\<open>"r+"\<close> need an existing file, \<^verbatim>\<open>"w"\<close> and \<^verbatim>\<open>"w+"\<close>
  create or truncate, \<^verbatim>\<open>"a"\<close> and \<^verbatim>\<open>"a+"\<close> create when missing and start at the end.
  Every mode but \<^verbatim>\<open>"r"\<close> writes, and fails at a path that cannot be opened for writing.
\<close>

definition filebuf_open :: "world \<Rightarrow> string \<Rightarrow> openmode \<Rightarrow> filebuf option \<times> world" where
  "filebuf_open w path flags =
     (case fopen_mode flags of
        None \<Rightarrow> (None, w)
      | Some cm \<Rightarrow>
          if (cm = mode_r \<or> cm = mode_r_plus) \<and> files w path = None then (None, w)
          else if cm \<noteq> mode_r \<and> path \<in> unwritable w then (None, w)
          else
            let fs = (if cm = mode_w \<or> cm = mode_w_plus \<or> files w path = None
                      then (files w)(path \<mapsto> []) else files w);
                w' = w\<lparr>files := fs, open_fds := insert (next_fd w) (open_fds w),
                       next_fd := Suc (next_fd w)\<rparr>;
                pos = (if cm = mode_a \<or> cm = mode_a_plus then length (content_of w' path) else 0)
            in (Some \<lparr>fd = next_fd w, fb_path = path, fb_mode = flags, fb_pos = pos\<rparr>, w'))"

text \<open>\<^verbatim>\<open>std::fstream stream(path, flags)\<close>: a failed open sets \<^verbatim>\<open>failbit\<close>.\<close>

definition fstream_open :: "world \<Rightarrow> string \<Rightarrow> openmode \<Rightarrow> fstream \<times> world" where
  "fstream_open w path flags =
     (case filebuf_open w path flags of
        (None, w') \<Rightarrow> (\<lparr>rdbuf = None, failbit = True, eofbit = False, badbit = False\<rparr>, w')
      | (Some b, w') \<Rightarrow> (\<lparr>rdbuf = Some b, failbit = False, eofbit = False, badbit = False\<rparr>, w'))"

definition fstream_is_open :: "fstream \<Rightarrow> bool" where
  "fstream_is_open s = (rdbuf s \<noteq> None)"

text \<open>\<^verbatim>\<open>fail()\<close>, which is also \<^verbatim>\<open>operator!\<close>; and \<^verbatim>\<open>good()\<close>.\<close>

definition fstream_fail :: "fstream \<Rightarrow> bool" where
  "fstream_fail s = (failbit s \<or> badbit s)"

definition fstream_good :: "fstream \<Rightarrow> bool" where
  "fstream_good s = (\<not> failbit s \<and> \<not> eofbit s \<and> \<not> badbit s)"

text \<open>\<^verbatim>\<open>fstream::close\<close>: closing a buffer that holds no file sets \<^verbatim>\<open>failbit\<close>.\<close>

definition fstream_close :: "world \<Rightarrow> fstream \<Rightarrow> fstream \<times> world" where
  "fstream_close w s =
     (case rdbuf s of
        None \<Rightarrow> (s\<lparr>failbit := True\<rparr>, w)
      | Some b \<Rightarrow> (s\<lparr>rdbuf := None\<rparr>, w\<lparr>open_fds := open_fds w - {fd b}\<rparr>))"

text \<open>
  \<^verbatim>\<open>basic_istream::sentry\<close> without whitespace skipping, as the unformatted input functions
  and \<^verbatim>\<open>std::getline\<close> construct it: a stream that is not good gets \<^verbatim>\<open>failbit\<close>.
\<close>

definition isentry :: "fstream \<Rightarrow> bool \<times> fstream" where
  "isentry s = (if fstream_good s then (True, s) else (False, s\<lparr>failbit := True\<rparr>))"

text \<open>\<^verbatim>\<open>basic_ostream::sentry\<close>.\<close>

definition osentry :: "fstream \<Rightarrow> bool \<times> fstream" where
  "osentry s = (if fstream_good s then (True, s)
                else if badbit s then (False, s\<lparr>failbit := True\<rparr>) else (False, s))"

text \<open>
  \<^verbatim>\<open>basic_filebuf::seekoff\<close>: fails (result \<open>-1\<close>) when no file is open or the target is before
  the start of the file; the open mode plays no role.
\<close>

definition filebuf_seekoff :: "world \<Rightarrow> filebuf option \<Rightarrow> int \<Rightarrow> seekdir \<Rightarrow> int \<times> filebuf option" where
  "filebuf_seekoff w ob off way =
     (case ob of
        None \<Rightarrow> (- 1, None)
      | Some b \<Rightarrow>
          let base = (case way of ios_beg \<Rightarrow> 0 | ios_cur \<Rightarrow> int (fb_pos b)
                      | ios_end \<Rightarrow> int (length (content_of w (fb_path b))));
              target = base + off
          in if target < 0 then (- 1, Some b) else (target, Some (b\<lparr>fb_pos := nat target\<rparr>)))"

text \<open>
  \<^verbatim>\<open>seekg(off, dir)\<close>: clears \<^verbatim>\<open>eofbit\<close>, constructs a sentry, and if the stream has not failed
  repositions the buffer; a failed repositioning sets \<^verbatim>\<open>failbit\<close>.
\<close>

definition seekg_off :: "world \<Rightarrow> fstream \<Rightarrow> int \<Rightarrow> seekdir \<Rightarrow> fstream" where
  "seekg_off w s off way =
     (let (ok, s1) = isentry (s\<lparr>eofbit := False\<rparr>) in
      if fstream_fail s1 then s1
      else let (p, b) = filebuf_seekoff w (rdbuf s1) off way in
           if p = - 1 then s1\<lparr>rdbuf := b, failbit := True\<rparr> else s1\<lparr>rdbuf := b\<rparr>)"

text \<open>\<^verbatim>\<open>seekg(pos)\<close> and \<^verbatim>\<open>seekp(pos)\<close> with an absolute position.\<close>

definition seekg_pos :: "world \<Rightarrow> fstream \<Rightarrow> int \<Rightarrow> fstream" where
  "seekg_pos w s pos = seekg_off w s pos ios_beg"

definition seekp_pos :: "world \<Rightarrow> fstream \<Rightarrow> int \<Rightarrow> fstream" where
  "seekp_pos w s pos =
     (let (ok, s1) = osentry s in
      if fstream_fail s1 then s1
      else let (p, b) = filebuf_seekoff w (rdbuf s1) pos ios_beg in
           if p = - 1 then s1\<lparr>rdbuf := b, failbit := True\<rparr> else s1\<lparr>rdbuf := b\<rparr>)"

text \<open>
  \<^verbatim>\<open>tellg()\<close>: after the sentry, \<open>-1\<close> if the stream has failed, else the buffer's answer
  to \<^verbatim>\<open>pubseekoff(0, cur)\<close>.
\<close>

definition tellg :: "world \<Rightarrow> fstream \<Rightarrow> int \<times> fstream" where
  "tellg w s =
     (let (ok, s1) = isentry s in
      if fstream_fail s1 then (- 1, s1)
      else (fst (filebuf_seekoff w (rdbuf s1) 0 ios_cur), s1))"

text \<open>The characters a buffer can still deliver: none unless it is open for input.\<close>

definition filebuf_avail :: "world \<Rightarrow> filebuf option \<Rightarrow> string" where
  "filebuf_avail w ob =
     (case ob of
        None \<Rightarrow> []
      | Some b \<Rightarrow> if ios_in (fb_mode b) then drop (fb_pos b) (content_of w (fb_path b)) else [])"

definition filebuf_advance :: "nat \<Rightarrow> filebuf option \<Rightarrow> filebuf option" where
  "filebuf_advance n ob = map_option (\<lambda>b. b\<lparr>fb_pos := fb_pos b + n\<rparr>) ob"

text \<open>
  \<^verbatim>\<open>read(s, n)\<close>: extracts up to \<open>n\<close> characters; meeting the end of the file before \<open>n\<close>
  characters are stored sets \<^verbatim>\<open>failbit | eofbit\<close>.
\<close>

definition fstream_read :: "world \<Rightarrow> fstream \<Rightarrow> nat \<Rightarrow> string \<times> fstream" where
  "fstream_read w s n =
     (let (ok, s1) = isentry s in
      if \<not> ok then ([], s1)
      else let got = take n (filebuf_avail w (rdbuf s1));
               s2 = s1\<lparr>rdbuf := filebuf_advance (length got) (rdbuf s1)\<rparr>
           in if length got < n then (got, s2\<lparr>failbit := True, eofbit := True\<rparr>) else (got, s2))"

text \<open>
  \<^verbatim>\<open>std::getline(is, str)\<close>: extracts up to the end of the file (\<^verbatim>\<open>eofbit\<close>) or up to a
  newline, which is extracted and not stored; \<^verbatim>\<open>failbit\<close> when nothing was extracted.
\<close>

definition getline :: "world \<Rightarrow> fstream \<Rightarrow> string \<times> fstream" where
  "getline w s =
     (let (ok, s1) = isentry s in
      if \<not> ok then ([], s1)
      else let rest = filebuf_avail w (rdbuf s1);
               line = takeWhile (\<lambda>c. c \<noteq> newline) rest
           in if dropWhile (\<lambda>c. c \<noteq> newline) rest = []
              then (line, s1\<lparr>rdbuf := filebuf_advance (length line) (rdbuf s1),
                             failbit := (line = []), eofbit := True\<rparr>)
              else (line, s1\<lparr>rdbuf := filebuf_advance (Suc (length line)) (rdbuf s1)\<rparr>))"

text \<open>
  \<^verbatim>\<open>basic_filebuf::sputn\<close>, written through: nothing is accepted unless the buffer is open for
  output; in append mode every write goes to the end of the file; a write beyond the end
  fills the gap with zero bytes. The result is the number of characters accepted.
\<close>

definition filebuf_sputn :: "world \<Rightarrow> filebuf option \<Rightarrow> string \<Rightarrow> nat \<times> filebuf option \<times> world" where
  "filebuf_sputn w ob data =
     (case ob of
        None \<Rightarrow> (0, None, w)
      | Some b \<Rightarrow>
          if \<not> ios_out (fb_mode b) \<or> data = [] then (0, Some b, w)
          else
            let old = content_of w (fb_path b);
                at = (if ios_app (fb_mode b) then length old else fb_pos b);
                new = take at old @ replicate (at - length old) NUL @ data
                      @ drop (at + length data) old
            in (length data, Some (b\<lparr>fb_pos := at + length data\<rparr>),
                w\<lparr>files := (files w)(fb_path b \<mapsto> new)\<rparr>))"

text \<open>
  \<^verbatim>\<open>os << str\<close> for a string (no field width is ever set by the class): when the buffer
  accepts fewer characters than offered the stream gets \<^verbatim>\<open>badbit\<close>.
\<close>

definition put_string :: "world \<Rightarrow> fstream \<Rightarrow> string \<Rightarrow> fstream \<times> world" where
  "put_string w s data =
     (let (ok, s1) = osentry s in
      if \<not> ok then (s1, w)
      else let (n, b, w') = filebuf_sputn w (rdbuf s1) data in
           if n \<noteq> length data then (s1\<lparr>rdbuf := b, badbit := True\<rparr>, w')
           else (s1\<lparr>rdbuf := b\<rparr>, w'))"

text \<open>
  Move construction of a stream: the new stream has the state and the file of the source,
  the source's buffer holds no file any more ([filebuf.cons]). The standard leaves the
  source's \<^verbatim>\<open>rdstate()\<close> unspecified; libstdc++ and libc++ leave it as it was.
\<close>

definition fstream_move :: "fstream \<Rightarrow> fstream \<times> fstream" where
  "fstream_move other = (other, other\<lparr>rdbuf := None\<rparr>)"

text \<open>
  Move assignment of a stream: \<^verbatim>\<open>basic_iostream::operator=\<close> swaps the stream states;
  \<^verbatim>\<open>basic_filebuf::operator=\<close> closes the target's file and takes the source's.
  Result: target, source, world.
\<close>

definition fstream_move_assign :: "world \<Rightarrow> fstream \<Rightarrow> fstream \<Rightarrow> fstream \<times> fstream \<times> world" where
  "fstream_move_assign w this other =
     (let w' = (case rdbuf this of None \<Rightarrow> w
                | Some b \<Rightarrow> w\<lparr>open_fds := open_fds w - {fd b}\<rparr>)
      in (this\<lparr>rdbuf := rdbuf other, failbit := failbit other, eofbit := eofbit other,
               badbit := badbit other\<rparr>,
          other\<lparr>rdbuf := None, failbit := failbit this, eofbit := eofbit this,
                badbit := badbit this\<rparr>,
          w'))"

section \<open>FileStream\<close>

datatype FileMode = Read | Write | Append | ReadWrite

text \<open>The class has one member, \<^verbatim>\<open>mutable std::fstream stream_\<close>, here \<open>stream\<close>.\<close>

record FileStream =
  stream :: fstream

text \<open>
  \<^verbatim>\<open>open_stream\<close>: the flags start as \<^verbatim>\<open>binary\<close>, the mode adds its own, and a stream that
  is not open after construction is an error naming the path.
\<close>

definition open_stream :: "world \<Rightarrow> string \<Rightarrow> FileMode \<Rightarrow> (IOError + fstream) \<times> world" where
  "open_stream w path mode =
     (let flags0 = no_flags\<lparr>ios_binary := True\<rparr>;
          flags = (case mode of
                     Read \<Rightarrow> flags0\<lparr>ios_in := True\<rparr>
                   | Write \<Rightarrow> flags0\<lparr>ios_out := True, ios_trunc := True\<rparr>
                   | Append \<Rightarrow> flags0\<lparr>ios_out := True, ios_app := True\<rparr>
                   | ReadWrite \<Rightarrow> flags0\<lparr>ios_in := True, ios_out := True\<rparr>);
          (st, w') = fstream_open w path flags
      in if \<not> fstream_is_open st
         then (Inl (IOError (''Failed to open file: '' @ path)), w')
         else (Inr st, w'))"

text \<open>The constructor \<^verbatim>\<open>FileStream(path, mode)\<close>.\<close>

definition FileStream_new :: "world \<Rightarrow> string \<Rightarrow> FileMode \<Rightarrow> (IOError + FileStream) \<times> world" where
  "FileStream_new w path mode =
     (case open_stream w path mode of
        (Inl e, w') \<Rightarrow> (Inl e, w')
      | (Inr s, w') \<Rightarrow> (Inr \<lparr>stream = s\<rparr>, w'))"

text \<open>The destructor: closes the stream if it is open. It returns the world.\<close>

definition FileStream_delete :: "world \<Rightarrow> FileStream \<Rightarrow> world" where
  "FileStream_delete w f =
     (if fstream_is_open (stream f) then snd (fstream_close w (stream f)) else w)"

text \<open>
  The move constructor \<^verbatim>\<open>FileStream(FileStream&& other)\<close>: the new object and what is left
  of \<open>other\<close>. The copy constructor and copy assignment are deleted: the class has no
  operation that copies a stream, and the model has none.
\<close>

definition FileStream_move :: "FileStream \<Rightarrow> FileStream \<times> FileStream" where
  "FileStream_move other =
     (let (s, o') = fstream_move (stream other)
      in (\<lparr>stream = s\<rparr>, other\<lparr>stream := o'\<rparr>))"

definition is_open :: "FileStream \<Rightarrow> bool" where
  "is_open f = fstream_is_open (stream f)"

definition read_all :: "world \<Rightarrow> FileStream \<Rightarrow> (IOError + string) \<times> FileStream" where
  "read_all w f =
     (if fstream_fail (stream f) then (Inl (IOError ''File not open for reading''), f)
      else
        let s1 = seekg_off w (stream f) 0 ios_end;
            (size, s2) = tellg w s1;
            s3 = seekg_off w s2 0 ios_beg
        in if size \<le> 0 then (Inr [], f\<lparr>stream := s3\<rparr>)
           else
             let (got, s4) = fstream_read w s3 (nat size)
             in (Inr (got @ replicate (nat size - length got) NUL), f\<lparr>stream := s4\<rparr>))"

definition read_line :: "world \<Rightarrow> FileStream \<Rightarrow> string option \<times> FileStream" where
  "read_line w f =
     (if fstream_fail (stream f) then (None, f)
      else
        let (line, s) = getline w (stream f)
        in if \<not> fstream_fail s then (Some line, f\<lparr>stream := s\<rparr>)
           else (None, f\<lparr>stream := s\<rparr>))"

text \<open>
  \<^verbatim>\<open>write\<close> (here \<open>write_value\<close>): the value is given by the characters that \<^verbatim>\<open>stream_ << value\<close> inserts; for a
  \<^verbatim>\<open>std::string\<close> these are its bytes.
\<close>

definition write_value :: "world \<Rightarrow> FileStream \<Rightarrow> string \<Rightarrow> (IOError + unit) \<times> FileStream \<times> world" where
  "write_value w f v =
     (if fstream_fail (stream f) then (Inl (IOError ''File not open for writing''), f, w)
      else
        let (s, w') = put_string w (stream f) v
        in (Inr (), f\<lparr>stream := s\<rparr>, w'))"

definition write_line :: "world \<Rightarrow> FileStream \<Rightarrow> string \<Rightarrow> (IOError + unit) \<times> FileStream \<times> world" where
  "write_line w f v =
     (case write_value w f v of
        (Inl e, f', w') \<Rightarrow> (Inl e, f', w')
      | (Inr u, f', w') \<Rightarrow>
          let (s, w'') = put_string w' (stream f') [newline]
          in (Inr (), f'\<lparr>stream := s\<rparr>, w''))"

type_synonym size_t = "64 word"

definition seek :: "world \<Rightarrow> FileStream \<Rightarrow> size_t \<Rightarrow> FileStream" where
  "seek w f pos =
     (let s1 = seekg_pos w (stream f) (sint pos);
          s2 = seekp_pos w s1 (sint pos)
      in f\<lparr>stream := s2\<rparr>)"

text \<open>
  \<^verbatim>\<open>tell\<close>: the \<^verbatim>\<open>pos_type\<close> returned by \<^verbatim>\<open>tellg\<close> is converted to \<^verbatim>\<open>size_t\<close>. The member is
  \<^verbatim>\<open>const\<close> but the stream is \<^verbatim>\<open>mutable\<close>, so the object is returned too.
\<close>

definition tell :: "world \<Rightarrow> FileStream \<Rightarrow> size_t \<times> FileStream" where
  "tell w f =
     (let (p, s) = tellg w (stream f)
      in (word_of_int p, f\<lparr>stream := s\<rparr>))"

section \<open>Free functions\<close>

text \<open>
  Each opens a \<^verbatim>\<open>FileStream\<close> local to the call; its destructor runs when the function
  returns and when it throws.
\<close>

definition read_file :: "world \<Rightarrow> string \<Rightarrow> (IOError + string) \<times> world" where
  "read_file w path =
     (case FileStream_new w path Read of
        (Inl e, w') \<Rightarrow> (Inl e, w')
      | (Inr file, w') \<Rightarrow>
          let (r, file') = read_all w' file
          in (r, FileStream_delete w' file'))"

definition write_file :: "world \<Rightarrow> string \<Rightarrow> string \<Rightarrow> (IOError + unit) \<times> world" where
  "write_file w path content =
     (case FileStream_new w path Write of
        (Inl e, w') \<Rightarrow> (Inl e, w')
      | (Inr file, w') \<Rightarrow>
          let (r, file', w'') = write_value w' file content
          in (r, FileStream_delete w'' file'))"

definition append_file :: "world \<Rightarrow> string \<Rightarrow> string \<Rightarrow> (IOError + unit) \<times> world" where
  "append_file w path content =
     (case FileStream_new w path Append of
        (Inl e, w') \<Rightarrow> (Inl e, w')
      | (Inr file, w') \<Rightarrow>
          let (r, file', w'') = write_value w' file content
          in (r, FileStream_delete w'' file'))"

text \<open>
  The loop of \<^verbatim>\<open>read_lines\<close>. A line is returned only after at least one character was
  extracted, so the characters still to be read decrease.
\<close>

function read_lines_loop :: "world \<Rightarrow> FileStream \<Rightarrow> string list \<Rightarrow> string list \<times> FileStream" where
  "read_lines_loop w file lines =
     (case read_line w file of
        (None, file') \<Rightarrow> (lines, file')
      | (Some line, file') \<Rightarrow> read_lines_loop w file' (lines @ [line]))"
  by pat_completeness auto
termination
proof (relation "measure (\<lambda>(w, f, lines). length (filebuf_avail w (rdbuf (stream f))))")
  show "wf (measure (\<lambda>(w, f, lines). length (filebuf_avail w (rdbuf (stream f)))))"
    by simp
next
  fix w :: world and f f' :: FileStream and lines :: "string list" and x line
  assume "(x, f') = read_line w f" and "x = Some line"
  then have rl: "read_line w f = (Some line, f')"
    by simp
  let ?rest = "filebuf_avail w (rdbuf (stream f))"
  let ?line = "takeWhile (\<lambda>c. c \<noteq> newline) ?rest"
  obtain l s' where g: "getline w (stream f) = (l, s')"
    by (cases "getline w (stream f)")
  with rl have nf: "\<not> fstream_fail s'" and f': "f' = f\<lparr>stream := s'\<rparr>"
    by (auto simp: read_line_def split: if_splits)
  from g nf have good: "fstream_good (stream f)"
    by (auto simp: getline_def isentry_def fstream_fail_def split: if_splits)
  have adv: "filebuf_avail w (filebuf_advance n (rdbuf (stream f))) = drop n ?rest" for n
    by (cases "rdbuf (stream f)") (auto simp: filebuf_avail_def filebuf_advance_def add.commute)
  from g nf good have ne: "?rest \<noteq> []"
    by (auto simp: getline_def isentry_def fstream_fail_def Let_def split: if_splits)
  from g nf good have "rdbuf s' = filebuf_advance (length ?line) (rdbuf (stream f)) \<and> ?line \<noteq> []
      \<or> rdbuf s' = filebuf_advance (Suc (length ?line)) (rdbuf (stream f))"
    by (auto simp: getline_def isentry_def fstream_fail_def Let_def split: if_splits)
  with ne have "length (filebuf_avail w (rdbuf s')) < length ?rest"
    by (auto simp: adv)
  with f' show "((w, f', lines @ [line]), (w, f, lines))
      \<in> measure (\<lambda>(w, f, lines). length (filebuf_avail w (rdbuf (stream f))))"
    by simp
qed

definition read_lines :: "world \<Rightarrow> string \<Rightarrow> (IOError + string list) \<times> world" where
  "read_lines w path =
     (case FileStream_new w path Read of
        (Inl e, w') \<Rightarrow> (Inl e, w')
      | (Inr file, w') \<Rightarrow>
          let (lines, file') = read_lines_loop w' file []
          in (Inr lines, FileStream_delete w' file'))"

text \<open>
  The lines of a byte string, as \<open>read_line\<close> is specified: each line runs up to the next
  newline, which is dropped; a last line without newline counts; an empty rest does not.
\<close>

function split_lines :: "string \<Rightarrow> string list" where
  "split_lines cs =
     (if cs = [] then []
      else takeWhile (\<lambda>c. c \<noteq> newline) cs
           # split_lines (drop (Suc (length (takeWhile (\<lambda>c. c \<noteq> newline) cs))) cs))"
  by pat_completeness auto
termination
  by (relation "measure length") auto

text \<open>
  A stream from which \<open>read_line\<close> can read on: open for input, not failed, and at the end of
  its file if it has \<^verbatim>\<open>eofbit\<close> set.
\<close>

definition readable :: "world \<Rightarrow> FileStream \<Rightarrow> bool" where
  "readable w f = ((case rdbuf (stream f) of None \<Rightarrow> False | Some b \<Rightarrow> ios_in (fb_mode b))
     \<and> \<not> fstream_fail (stream f)
     \<and> (eofbit (stream f) \<longrightarrow> filebuf_avail w (rdbuf (stream f)) = []))"

section \<open>Objects in memory\<close>

text \<open>
  Move assignment compares the addresses of its two operands, and the ownership of a handle
  is a property of all the objects alive at one time. For these the objects live in a store,
  addressed by numbers, beside the world.
\<close>

record state =
  env :: world
  objects :: "nat \<rightharpoonup> FileStream"

text \<open>
  The body of \<^verbatim>\<open>operator=(FileStream&& other)\<close> when \<^verbatim>\<open>this != &other\<close>: the target's
  stream is closed if it is open, then move-assigned from the source's.
  Result: target, source, world.
\<close>

definition FileStream_assign :: "world \<Rightarrow> FileStream \<Rightarrow> FileStream \<Rightarrow> FileStream \<times> FileStream \<times> world" where
  "FileStream_assign w this other =
     (let (s1, w1) = (if fstream_is_open (stream this) then fstream_close w (stream this)
                      else (stream this, w));
          (s2, o2, w2) = fstream_move_assign w1 s1 (stream other)
      in (this\<lparr>stream := s2\<rparr>, other\<lparr>stream := o2\<rparr>, w2))"

text \<open>
  \<^verbatim>\<open>operator=(FileStream&&)\<close> on the objects at two addresses. Both must be alive; the state
  is returned as it is otherwise.
\<close>

definition move_assign :: "nat \<Rightarrow> nat \<Rightarrow> state \<Rightarrow> state" where
  "move_assign this other \<sigma> =
     (if this \<noteq> other then
        (case (objects \<sigma> this, objects \<sigma> other) of
           (Some t, Some ot) \<Rightarrow>
             let (t', o', w') = FileStream_assign (env \<sigma>) t ot
             in \<sigma>\<lparr>env := w', objects := (objects \<sigma>)(this \<mapsto> t', other \<mapsto> o')\<rparr>
         | _ \<Rightarrow> \<sigma>)
      else \<sigma>)"

text \<open>
  What a program can do with \<^verbatim>\<open>FileStream\<close> objects: construct one in fresh storage (the
  constructor may throw, and then no object exists), move-construct one from another,
  move-assign, destroy, call the member functions, and call the free functions.
\<close>

inductive step :: "state \<Rightarrow> state \<Rightarrow> bool" where
  construct: "a \<notin> dom (objects \<sigma>) \<Longrightarrow> FileStream_new (env \<sigma>) path mode = (Inr f, w')
     \<Longrightarrow> step \<sigma> (\<sigma>\<lparr>env := w', objects := (objects \<sigma>)(a \<mapsto> f)\<rparr>)"
| construct_throws: "FileStream_new (env \<sigma>) path mode = (Inl e, w')
     \<Longrightarrow> step \<sigma> (\<sigma>\<lparr>env := w'\<rparr>)"
| move_construct: "a \<notin> dom (objects \<sigma>) \<Longrightarrow> objects \<sigma> b = Some other
     \<Longrightarrow> FileStream_move other = (f, other')
     \<Longrightarrow> step \<sigma> (\<sigma>\<lparr>objects := (objects \<sigma>)(b \<mapsto> other', a \<mapsto> f)\<rparr>)"
| assign: "objects \<sigma> a = Some t \<Longrightarrow> objects \<sigma> b = Some other
     \<Longrightarrow> step \<sigma> (move_assign a b \<sigma>)"
| destroy: "objects \<sigma> a = Some f
     \<Longrightarrow> step \<sigma> (\<sigma>\<lparr>env := FileStream_delete (env \<sigma>) f, objects := (objects \<sigma>)(a := None)\<rparr>)"
| call_read_all: "objects \<sigma> a = Some f \<Longrightarrow> read_all (env \<sigma>) f = (r, f')
     \<Longrightarrow> step \<sigma> (\<sigma>\<lparr>objects := (objects \<sigma>)(a \<mapsto> f')\<rparr>)"
| call_read_line: "objects \<sigma> a = Some f \<Longrightarrow> read_line (env \<sigma>) f = (l, f')
     \<Longrightarrow> step \<sigma> (\<sigma>\<lparr>objects := (objects \<sigma>)(a \<mapsto> f')\<rparr>)"
| call_write: "objects \<sigma> a = Some f \<Longrightarrow> write_value (env \<sigma>) f v = (u, f', w')
     \<Longrightarrow> step \<sigma> (\<sigma>\<lparr>env := w', objects := (objects \<sigma>)(a \<mapsto> f')\<rparr>)"
| call_write_line: "objects \<sigma> a = Some f \<Longrightarrow> write_line (env \<sigma>) f v = (u, f', w')
     \<Longrightarrow> step \<sigma> (\<sigma>\<lparr>env := w', objects := (objects \<sigma>)(a \<mapsto> f')\<rparr>)"
| call_seek: "objects \<sigma> a = Some f
     \<Longrightarrow> step \<sigma> (\<sigma>\<lparr>objects := (objects \<sigma>)(a \<mapsto> seek (env \<sigma>) f pos)\<rparr>)"
| call_tell: "objects \<sigma> a = Some f \<Longrightarrow> tell (env \<sigma>) f = (n, f')
     \<Longrightarrow> step \<sigma> (\<sigma>\<lparr>objects := (objects \<sigma>)(a \<mapsto> f')\<rparr>)"
| call_read_file: "read_file (env \<sigma>) path = (r, w') \<Longrightarrow> step \<sigma> (\<sigma>\<lparr>env := w'\<rparr>)"
| call_write_file: "write_file (env \<sigma>) path v = (u, w') \<Longrightarrow> step \<sigma> (\<sigma>\<lparr>env := w'\<rparr>)"
| call_append_file: "append_file (env \<sigma>) path v = (u, w') \<Longrightarrow> step \<sigma> (\<sigma>\<lparr>env := w'\<rparr>)"
| call_read_lines: "read_lines (env \<sigma>) path = (ls, w') \<Longrightarrow> step \<sigma> (\<sigma>\<lparr>env := w'\<rparr>)"

text \<open>A program starts with no object and no descriptor in use.\<close>

inductive reachable :: "state \<Rightarrow> bool" where
  start: "objects \<sigma> = Map.empty \<Longrightarrow> open_fds (env \<sigma>) = {} \<Longrightarrow> reachable \<sigma>"
| after: "reachable \<sigma> \<Longrightarrow> step \<sigma> \<sigma>' \<Longrightarrow> reachable \<sigma>'"

text \<open>The object at address \<open>a\<close> owns the descriptor \<open>h\<close>.\<close>

definition owns :: "state \<Rightarrow> nat \<Rightarrow> nat \<Rightarrow> bool" where
  "owns \<sigma> a h = (case objects \<sigma> a of
                   None \<Rightarrow> False
                 | Some f \<Rightarrow> (case rdbuf (stream f) of None \<Rightarrow> False | Some b \<Rightarrow> fd b = h))"

text \<open>
  The ownership discipline: a descriptor has at most one owner, the descriptors in use are
  the owned ones (none is leaked, none is owned after it was closed), and the next
  descriptor is a fresh one.
\<close>

definition single_owner :: "state \<Rightarrow> bool" where
  "single_owner \<sigma> = (\<forall>a a' h. owns \<sigma> a h \<and> owns \<sigma> a' h \<longrightarrow> a = a')"

definition no_leak :: "state \<Rightarrow> bool" where
  "no_leak \<sigma> = (\<forall>h. h \<in> open_fds (env \<sigma>) \<longleftrightarrow> (\<exists>a. owns \<sigma> a h))"

definition fds_below_next :: "state \<Rightarrow> bool" where
  "fds_below_next \<sigma> = (\<forall>h \<in> open_fds (env \<sigma>). h < next_fd (env \<sigma>))"

definition ownership :: "state \<Rightarrow> bool" where
  "ownership \<sigma> = (single_owner \<sigma> \<and> no_leak \<sigma> \<and> fds_below_next \<sigma>)"

text \<open>
  The descriptor held by an object, and by the object at an address. The three parts of
  \<open>ownership\<close> are statements about the descriptors held at each address, the descriptors
  in use and the next descriptor only.
\<close>

definition handle_of :: "FileStream \<Rightarrow> nat option" where
  "handle_of f = map_option fd (rdbuf (stream f))"

definition handle_at :: "state \<Rightarrow> nat \<Rightarrow> nat option" where
  "handle_at \<sigma> a = (case objects \<sigma> a of None \<Rightarrow> None | Some f \<Rightarrow> handle_of f)"

definition own_inv :: "(nat \<Rightarrow> nat option) \<Rightarrow> nat set \<Rightarrow> nat \<Rightarrow> bool" where
  "own_inv H O' n = ((\<forall>a a' h. H a = Some h \<and> H a' = Some h \<longrightarrow> a = a')
     \<and> (\<forall>h. h \<in> O' \<longleftrightarrow> (\<exists>a. H a = Some h)) \<and> (\<forall>h \<in> O'. h < n))"

text \<open>
  What a free function leaves of the descriptors: nothing changes when its constructor throws,
  and otherwise the descriptor it opened is closed again.
\<close>

definition scoped_fds :: "world \<Rightarrow> world \<Rightarrow> bool" where
  "scoped_fds w w' = ((open_fds w' = open_fds w \<and> next_fd w' = next_fd w)
     \<or> (open_fds w' = insert (next_fd w) (open_fds w) - {next_fd w}
         \<and> next_fd w' = Suc (next_fd w)))"

section \<open>Console\<close>

text \<open>
  \<^verbatim>\<open>std::cin\<close>: the characters not yet extracted and the bits of \<^verbatim>\<open>rdstate()\<close>.
\<close>

record istream =
  pending :: string
  cin_failbit :: bool
  cin_eofbit :: bool
  cin_badbit :: bool

definition cin_fail :: "istream \<Rightarrow> bool" where
  "cin_fail c = (cin_failbit c \<or> cin_badbit c)"

definition cin_good :: "istream \<Rightarrow> bool" where
  "cin_good c = (\<not> cin_failbit c \<and> \<not> cin_eofbit c \<and> \<not> cin_badbit c)"

text \<open>\<^verbatim>\<open>std::getline(std::cin, line)\<close>.\<close>

definition cin_getline :: "istream \<Rightarrow> string \<times> istream" where
  "cin_getline c =
     (if \<not> cin_good c then ([], c\<lparr>cin_failbit := True\<rparr>)
      else let line = takeWhile (\<lambda>ch. ch \<noteq> newline) (pending c)
           in if dropWhile (\<lambda>ch. ch \<noteq> newline) (pending c) = []
              then (line, c\<lparr>pending := [], cin_failbit := (line = []), cin_eofbit := True\<rparr>)
              else (line, c\<lparr>pending := drop (Suc (length line)) (pending c)\<rparr>))"

text \<open>
  \<^verbatim>\<open>std::cin.ignore(std::numeric_limits<std::streamsize>::max(), '\n')\<close>: an unformatted
  input function; it discards characters up to and including the first newline, or up to
  the end of the input, which sets \<^verbatim>\<open>eofbit\<close>.
\<close>

definition cin_ignore_line :: "istream \<Rightarrow> istream" where
  "cin_ignore_line c =
     (if \<not> cin_good c then c\<lparr>cin_failbit := True\<rparr>
      else if dropWhile (\<lambda>ch. ch \<noteq> newline) (pending c) = []
      then c\<lparr>pending := [], cin_eofbit := True\<rparr>
      else c\<lparr>pending := tl (dropWhile (\<lambda>ch. ch \<noteq> newline) (pending c))\<rparr>)"

text \<open>The messages of the two console errors, as the bytes of the source file.\<close>

definition console_line_msg :: string where
  "console_line_msg =
     [CHR 0xE6, CHR 0x97, CHR 0xA0, CHR 0xE6, CHR 0xB3, CHR 0x95, CHR 0xE4, CHR 0xBB, CHR 0x8E,
      CHR 0xE6, CHR 0x8E, CHR 0xA7, CHR 0xE5, CHR 0x88, CHR 0xB6, CHR 0xE5, CHR 0x8F, CHR 0xB0,
      CHR 0xE8, CHR 0xAF, CHR 0xBB, CHR 0xE5, CHR 0x8F, CHR 0x96]"

definition console_value_msg :: string where
  "console_value_msg = console_line_msg @ [CHR 0xE5, CHR 0x80, CHR 0xBC]"

definition Console_read_line :: "istream \<Rightarrow> (IOError + string) \<times> istream" where
  "Console_read_line c =
     (let (line, c') = cin_getline c
      in if cin_fail c' then (Inl (IOError console_line_msg), c') else (Inr line, c'))"

text \<open>
  \<^verbatim>\<open>Console::read<T>\<close>. The concept \<^verbatim>\<open>Readable\<close> asks of \<open>T\<close> only that \<^verbatim>\<open>is >> t\<close> is an
  expression returning the stream, so \<^verbatim>\<open>std::cin >> value\<close> is a parameter: a function from
  the stream to the value and the stream after the extraction, whose failure shows in the
  stream's state. In the source file the head of this function and the \<^verbatim>\<open>throw\<close> of
  \<open>read_line\<close> have some keywords and identifiers replaced by their translations; they are
  read as the C++ they stand for: \<^verbatim>\<open>template <Readable T> static T read()\<close>,
  \<^verbatim>\<open>T value; if (!(std::cin >> value)) throw IOError(...)\<close>.
\<close>

definition Console_read :: "(istream \<Rightarrow> 'a \<times> istream) \<Rightarrow> istream \<Rightarrow> (IOError + 'a) \<times> istream" where
  "Console_read extract c =
     (let (v, c1) = extract c
      in if cin_fail c1 then (Inl (IOError console_value_msg), c1)
         else (Inr v, cin_ignore_line c1))"

text \<open>
  One readable type: \<^verbatim>\<open>std::string\<close>, whose extractor skips white space and then takes
  the characters up to the next white space or the end of the input.
\<close>

definition isspace :: "char \<Rightarrow> bool" where
  "isspace ch = (ch \<in> {CHR '' '', CHR 0x09, CHR 0x0A, CHR 0x0B, CHR 0x0C, CHR 0x0D})"

definition extract_string :: "istream \<Rightarrow> string \<times> istream" where
  "extract_string c =
     (if \<not> cin_good c then ([], c\<lparr>cin_failbit := True\<rparr>)
      else let rest = dropWhile isspace (pending c)
           in if rest = [] then ([], c\<lparr>pending := [], cin_failbit := True, cin_eofbit := True\<rparr>)
              else let tok = takeWhile (\<lambda>ch. \<not> isspace ch) rest;
                       rest' = dropWhile (\<lambda>ch. \<not> isspace ch) rest
                   in (tok, c\<lparr>pending := rest', cin_eofbit := (rest' = [])\<rparr>))"

section \<open>A file used in the examples\<close>

text \<open>
  A world with one file \<^verbatim>\<open>a.txt\<close> holding \<^verbatim>\<open>abc\<close>, in which the empty path and
  \<^verbatim>\<open>nodir/b.txt\<close> (no directory \<^verbatim>\<open>nodir\<close> exists) cannot be opened for writing; the same world after the file was opened
  for reading; the stream just opened; and the stream after two calls of \<open>read_line\<close>, the
  second of which met the end of the file.
\<close>

definition abc_world :: world where
  "abc_world = \<lparr>files = [''a.txt'' \<mapsto> ''abc''], unwritable = {[], ''nodir/b.txt''},
                 open_fds = {}, next_fd = 3\<rparr>"

definition abc_opened :: world where
  "abc_opened = \<lparr>files = [''a.txt'' \<mapsto> ''abc''], unwritable = {[], ''nodir/b.txt''},
                  open_fds = {3}, next_fd = 4\<rparr>"

definition in_flags :: openmode where
  "in_flags = \<lparr>ios_binary = True, ios_in = True, ios_out = False, ios_trunc = False,
                ios_app = False\<rparr>"

definition abc_buf :: filebuf where
  "abc_buf = \<lparr>fd = 3, fb_path = ''a.txt'', fb_mode = in_flags, fb_pos = 0\<rparr>"

definition abc_file :: FileStream where
  "abc_file = \<lparr>stream = \<lparr>rdbuf = Some abc_buf, failbit = False, eofbit = False,
                           badbit = False\<rparr>\<rparr>"

definition abc_at_eof :: FileStream where
  "abc_at_eof = \<lparr>stream = \<lparr>rdbuf = Some (abc_buf\<lparr>fb_pos := 3\<rparr>), failbit = True,
                             eofbit = True, badbit = False\<rparr>\<rparr>"

text \<open>The stream of \<^verbatim>\<open>a.txt\<close> just opened in \<open>Append\<close> mode.\<close>

definition app_flags :: openmode where
  "app_flags = \<lparr>ios_binary = True, ios_in = False, ios_out = True, ios_trunc = False,
                 ios_app = True\<rparr>"

definition abc_appending :: FileStream where
  "abc_appending = \<lparr>stream = \<lparr>rdbuf = Some \<lparr>fd = 3, fb_path = ''a.txt'',
                         fb_mode = app_flags, fb_pos = 3\<rparr>,
                       failbit = False, eofbit = False, badbit = False\<rparr>\<rparr>"

text \<open>The world and the stream after \<^verbatim>\<open>a.txt\<close> was opened in \<open>Write\<close> mode.\<close>

definition abc_truncated :: world where
  "abc_truncated = \<lparr>files = [''a.txt'' \<mapsto> []], unwritable = {[], ''nodir/b.txt''},
                     open_fds = {3}, next_fd = 4\<rparr>"

definition abc_writing :: FileStream where
  "abc_writing = \<lparr>stream = \<lparr>rdbuf = Some \<lparr>fd = 3, fb_path = ''a.txt'',
                       fb_mode = \<lparr>ios_binary = True, ios_in = False, ios_out = True,
                                  ios_trunc = True, ios_app = False\<rparr>, fb_pos = 0\<rparr>,
                     failbit = False, eofbit = False, badbit = False\<rparr>\<rparr>"

lemmas abc_defs = abc_world_def abc_opened_def in_flags_def abc_buf_def abc_file_def abc_at_eof_def
  app_flags_def abc_appending_def

text \<open>
  States of the store: no object; one object, the stream of \<^verbatim>\<open>a.txt\<close>, at address 1; the
  state after an object at address 2 was move-constructed from it; and two open objects, the
  second on a new file \<^verbatim>\<open>b.txt\<close> opened in \<open>Write\<close> mode.
\<close>

definition no_object :: state where
  "no_object = \<lparr>env = abc_world, objects = Map.empty\<rparr>"

definition one_object :: state where
  "one_object = \<lparr>env = abc_opened, objects = [1 \<mapsto> abc_file]\<rparr>"

definition after_move :: state where
  "after_move = \<lparr>env = abc_opened,
                  objects = [1 \<mapsto> abc_file\<lparr>stream := (stream abc_file)\<lparr>rdbuf := None\<rparr>\<rparr>,
                             2 \<mapsto> abc_file]\<rparr>"

definition b_file :: FileStream where
  "b_file = \<lparr>stream = \<lparr>rdbuf = Some \<lparr>fd = 4, fb_path = ''b.txt'',
                  fb_mode = \<lparr>ios_binary = True, ios_in = False, ios_out = True,
                             ios_trunc = True, ios_app = False\<rparr>, fb_pos = 0\<rparr>,
                failbit = False, eofbit = False, badbit = False\<rparr>\<rparr>"

definition two_objects :: state where
  "two_objects = \<lparr>env = \<lparr>files = [''a.txt'' \<mapsto> ''abc'', ''b.txt'' \<mapsto> []],
                          unwritable = {[], ''nodir/b.txt''}, open_fds = {3, 4}, next_fd = 5\<rparr>,
                   objects = [1 \<mapsto> abc_file, 2 \<mapsto> b_file]\<rparr>"

text \<open>
  States of the console: a line \<^verbatim>\<open>  42 tail\<close> followed by a line \<^verbatim>\<open>next line\<close>; what is left
  of it after the extraction of \<^verbatim>\<open>42\<close>; and an input at its end.
\<close>

definition typed_42 :: istream where
  "typed_42 = \<lparr>pending = ''  42 tail'' @ [newline] @ ''next line'' @ [newline],
               cin_failbit = False, cin_eofbit = False, cin_badbit = False\<rparr>"

definition after_42 :: istream where
  "after_42 = \<lparr>pending = '' tail'' @ [newline] @ ''next line'' @ [newline],
               cin_failbit = False, cin_eofbit = False, cin_badbit = False\<rparr>"

definition no_input :: istream where
  "no_input = \<lparr>pending = [], cin_failbit = False, cin_eofbit = False, cin_badbit = False\<rparr>"

section \<open>Opening a file\<close>

lemmas open_defs = FileStream_new_def open_stream_def fstream_open_def filebuf_open_def
  fopen_mode_def no_flags_def fstream_is_open_def content_of_def

lemma FileStream_new_Write:
  "FileStream_new w p Write =
     (if p \<in> unwritable w then (Inl (IOError (''Failed to open file: '' @ p)), w)
      else (Inr \<lparr>stream = \<lparr>rdbuf = Some \<lparr>fd = next_fd w, fb_path = p,
                fb_mode = \<lparr>ios_binary = True, ios_in = False, ios_out = True,
                           ios_trunc = True, ios_app = False\<rparr>, fb_pos = 0\<rparr>,
              failbit = False, eofbit = False, badbit = False\<rparr>\<rparr>,
      w\<lparr>files := (files w)(p \<mapsto> []), open_fds := insert (next_fd w) (open_fds w),
        next_fd := Suc (next_fd w)\<rparr>))"
  by (simp add: open_defs)

lemma FileStream_new_Read:
  "FileStream_new w p Read =
     (if files w p = None then (Inl (IOError (''Failed to open file: '' @ p)), w)
      else (Inr \<lparr>stream = \<lparr>rdbuf = Some \<lparr>fd = next_fd w, fb_path = p,
                fb_mode = \<lparr>ios_binary = True, ios_in = True, ios_out = False,
                           ios_trunc = False, ios_app = False\<rparr>, fb_pos = 0\<rparr>,
              failbit = False, eofbit = False, badbit = False\<rparr>\<rparr>,
      w\<lparr>open_fds := insert (next_fd w) (open_fds w), next_fd := Suc (next_fd w)\<rparr>))"
  by (simp add: open_defs)

section \<open>Writing a file and reading it back\<close>

lemma write_file_eq:
  "write_file w p content =
     (if p \<in> unwritable w then (Inl (IOError (''Failed to open file: '' @ p)), w)
      else (Inr (), w\<lparr>files := (files w)(p \<mapsto> content),
                open_fds := insert (next_fd w) (open_fds w) - {next_fd w},
                next_fd := Suc (next_fd w)\<rparr>))"
  by (simp add: write_file_def FileStream_new_Write write_value_def fstream_fail_def
      put_string_def osentry_def fstream_good_def filebuf_sputn_def content_of_def
      FileStream_delete_def fstream_is_open_def fstream_close_def Let_def)

lemma read_file_eq:
  "files w p = Some content \<Longrightarrow> read_file w p =
     (Inr content, w\<lparr>open_fds := insert (next_fd w) (open_fds w) - {next_fd w},
                next_fd := Suc (next_fd w)\<rparr>)"
  by (simp add: read_file_def FileStream_new_Read read_all_def fstream_fail_def
      seekg_off_def isentry_def tellg_def filebuf_seekoff_def fstream_read_def
      filebuf_avail_def filebuf_advance_def fstream_good_def content_of_def
      FileStream_delete_def fstream_is_open_def fstream_close_def Let_def)

text \<open>
  C1, as the code has it. For every path \<open>p\<close> that can be opened for writing and every byte
  sequence \<open>content\<close>, \<open>write_file\<close> succeeds and a following \<open>read_file\<close> of the same path
  returns exactly \<open>content\<close>: the empty sequence, line terminators and null bytes are bytes
  like the others. At a path that cannot be opened for writing \<open>write_file\<close> throws the
  \<open>IOError\<close> of \<open>open_stream\<close> and changes nothing.
\<close>

theorem write_file_read_file_roundtrip:
  "(p \<notin> unwritable w \<longrightarrow>
      fst (write_file w p content) = Inr ()
      \<and> fst (read_file (snd (write_file w p content)) p) = Inr content)
   \<and> (p \<in> unwritable w \<longrightarrow>
      write_file w p content = (Inl (IOError (''Failed to open file: '' @ p)), w))"
  by (simp add: write_file_eq read_file_eq)

theorem write_file_read_file_roundtrip_witness:
  "''a.bin'' \<notin> unwritable abc_world
   \<and> fst (write_file abc_world ''a.bin'' [CHR ''x'', CHR 0x0A, CHR 0x00, CHR ''y'']) = Inr ()
   \<and> fst (read_file (snd (write_file abc_world ''a.bin''
             [CHR ''x'', CHR 0x0A, CHR 0x00, CHR ''y''])) ''a.bin'')
       = Inr [CHR ''x'', CHR 0x0A, CHR 0x00, CHR ''y'']
   \<and> fst (read_file (snd (write_file abc_world ''a.bin'' [])) ''a.bin'') = Inr []
   \<and> ''nodir/b.txt'' \<in> unwritable abc_world
   \<and> write_file abc_world ''nodir/b.txt'' ''x''
       = (Inl (IOError ''Failed to open file: nodir/b.txt''), abc_world)"
proof -
  have h: "''a.bin'' \<notin> unwritable abc_world" "''nodir/b.txt'' \<in> unwritable abc_world"
    by (simp_all add: abc_world_def)
  from write_file_read_file_roundtrip
         [of "''a.bin''" abc_world "[CHR ''x'', CHR 0x0A, CHR 0x00, CHR ''y'']"]
       write_file_read_file_roundtrip [of "''a.bin''" abc_world "[]"]
       write_file_read_file_roundtrip [of "''nodir/b.txt''" abc_world "''x''"] h
  show ?thesis
    by simp
qed

text \<open>
  C1 as stated, for every path, fails. In a world where the empty path cannot be opened,
  \<open>write_file\<close> throws at the empty path, and so does the \<open>read_file\<close> that follows; the
  same happens at \<^verbatim>\<open>nodir/b.txt\<close>, whose directory does not exist.
\<close>

theorem write_file_refused:
  "fst (write_file abc_world [] ''x'') = Inl (IOError ''Failed to open file: '')
   \<and> fst (read_file (snd (write_file abc_world [] ''x'')) [])
       = Inl (IOError ''Failed to open file: '')
   \<and> fst (write_file abc_world ''nodir/b.txt'' ''x'')
       = Inl (IOError ''Failed to open file: nodir/b.txt'')
   \<and> fst (read_file (snd (write_file abc_world ''nodir/b.txt'' ''x'')) ''nodir/b.txt'')
       = Inl (IOError ''Failed to open file: nodir/b.txt'')"
  by (simp add: write_file_eq read_file_def FileStream_new_Read abc_world_def)

text \<open>
  C4, as the code has it. For every path that names no file, opening it in \<open>Read\<close> mode fails
  with the \<open>IOError\<close> of \<open>open_stream\<close> and changes nothing. Opening it in \<open>Write\<close> mode
  succeeds when the path can be opened for writing: the new object is open and the path now
  names an empty file. When the path cannot be opened for writing, \<open>Write\<close> mode fails with
  the same \<open>IOError\<close> and no file is created.
\<close>

theorem open_nonexistent_path:
  assumes "files w p = None"
  shows "FileStream_new w p Read = (Inl (IOError (''Failed to open file: '' @ p)), w)
       \<and> (p \<notin> unwritable w \<longrightarrow>
            (\<exists>f w'. FileStream_new w p Write = (Inr f, w') \<and> is_open f
                     \<and> files w' p = Some []))
       \<and> (p \<in> unwritable w \<longrightarrow>
            FileStream_new w p Write = (Inl (IOError (''Failed to open file: '' @ p)), w))"
  using assms
  by (simp add: FileStream_new_Read FileStream_new_Write is_open_def fstream_is_open_def)

theorem open_nonexistent_path_witness:
  "files abc_world ''b.txt'' = None \<and> ''b.txt'' \<notin> unwritable abc_world
   \<and> FileStream_new abc_world ''b.txt'' Read
       = (Inl (IOError ''Failed to open file: b.txt''), abc_world)
   \<and> (\<exists>f w'. FileStream_new abc_world ''b.txt'' Write = (Inr f, w') \<and> is_open f
               \<and> files w' ''b.txt'' = Some [])
   \<and> files abc_world ''nodir/b.txt'' = None \<and> ''nodir/b.txt'' \<in> unwritable abc_world
   \<and> FileStream_new abc_world ''nodir/b.txt'' Write
       = (Inl (IOError ''Failed to open file: nodir/b.txt''), abc_world)"
proof -
  have h: "files abc_world ''b.txt'' = None" "''b.txt'' \<notin> unwritable abc_world"
    and k: "files abc_world ''nodir/b.txt'' = None" "''nodir/b.txt'' \<in> unwritable abc_world"
    by (simp_all add: abc_world_def)
  from open_nonexistent_path [OF h(1)] open_nonexistent_path [OF k(1)] h k show ?thesis
    by simp
qed

text \<open>
  C4 as stated, for every nonexistent path, fails. No file is named by \<^verbatim>\<open>nodir/b.txt\<close> nor by
  the empty path, and opening either in \<open>Write\<close> mode throws: no file is created.
\<close>

theorem open_write_refused:
  "files abc_world ''nodir/b.txt'' = None
   \<and> FileStream_new abc_world ''nodir/b.txt'' Write
       = (Inl (IOError ''Failed to open file: nodir/b.txt''), abc_world)
   \<and> files abc_world [] = None
   \<and> FileStream_new abc_world [] Write = (Inl (IOError ''Failed to open file: ''), abc_world)"
  by (simp add: FileStream_new_Write abc_world_def)

section \<open>Reading lines\<close>

lemmas read_line_defs = read_line_def getline_def isentry_def fstream_fail_def fstream_good_def
  filebuf_avail_def filebuf_advance_def content_of_def newline_def

lemma abc_trace:
  "FileStream_new abc_world ''a.txt'' Read = (Inr abc_file, abc_opened)"
  "read_line abc_opened abc_file = (Some ''abc'', abc_at_eof\<lparr>stream := stream abc_at_eof\<lparr>failbit := False\<rparr>\<rparr>)"
  "read_line abc_opened (snd (read_line abc_opened abc_file)) = (None, abc_at_eof)"
  by (simp_all add: FileStream_new_Read abc_defs read_line_defs)

lemma read_line_at_end:
  assumes "readable w f" and "filebuf_avail w (rdbuf (stream f)) = []"
  shows "fst (read_line w f) = None"
  using assms
  by (auto simp: readable_def read_line_def getline_def isentry_def fstream_fail_def
      fstream_good_def Let_def split: option.splits)

lemma avail_advance:
  "filebuf_avail w (filebuf_advance n ob) = drop n (filebuf_avail w ob)"
  by (cases ob) (auto simp: filebuf_avail_def filebuf_advance_def add.commute)

lemma read_line_next:
  assumes "readable w f" and "filebuf_avail w (rdbuf (stream f)) \<noteq> []"
  shows "\<exists>f'. read_line w f = (Some (takeWhile (\<lambda>c. c \<noteq> newline) (filebuf_avail w (rdbuf (stream f)))), f')
           \<and> readable w f'
           \<and> filebuf_avail w (rdbuf (stream f'))
               = drop (Suc (length (takeWhile (\<lambda>c. c \<noteq> newline) (filebuf_avail w (rdbuf (stream f))))))
                   (filebuf_avail w (rdbuf (stream f)))"
proof -
  let ?rest = "filebuf_avail w (rdbuf (stream f))"
  let ?line = "takeWhile (\<lambda>c. c \<noteq> newline) ?rest"
  from assms have g: "fstream_good (stream f)"
    by (auto simp: readable_def fstream_good_def fstream_fail_def)
  from assms obtain b where b: "rdbuf (stream f) = Some b" "ios_in (fb_mode b)"
    by (auto simp: readable_def split: option.splits)
  have m: "(case filebuf_advance n (rdbuf (stream f)) of None \<Rightarrow> False
            | Some b \<Rightarrow> ios_in (fb_mode b))" for n
    using b by (simp add: filebuf_advance_def)
  show ?thesis
  proof (cases "dropWhile (\<lambda>c. c \<noteq> newline) ?rest = []")
    case True
    then have l: "?line = ?rest"
      by (simp add: takeWhile_eq_all_conv dropWhile_eq_Nil_conv)
    with assms(2) have ne: "?line \<noteq> []" by metis
    have e: "filebuf_avail w (filebuf_advance (length ?line) (rdbuf (stream f))) = []"
      by (metis avail_advance l drop_all order_refl)
    have e': "drop (Suc (length ?line)) ?rest = []"
      by (metis l drop_all le_SucI order_refl)
    from True g ne have "read_line w f = (Some ?line,
        f\<lparr>stream := (stream f)\<lparr>rdbuf := filebuf_advance (length ?line) (rdbuf (stream f)),
                                failbit := False, eofbit := True\<rparr>\<rparr>)"
      by (simp add: read_line_def getline_def isentry_def fstream_fail_def fstream_good_def Let_def)
    moreover have "readable w (f\<lparr>stream := (stream f)\<lparr>rdbuf := filebuf_advance (length ?line) (rdbuf (stream f)),
                                failbit := False, eofbit := True\<rparr>\<rparr>)"
      using g by (simp add: readable_def m e fstream_fail_def fstream_good_def)
    ultimately show ?thesis
      using e e' by simp
  next
    case False
    with g have "read_line w f = (Some ?line,
        f\<lparr>stream := (stream f)\<lparr>rdbuf := filebuf_advance (Suc (length ?line)) (rdbuf (stream f))\<rparr>\<rparr>)"
      by (auto simp: read_line_def getline_def isentry_def fstream_fail_def fstream_good_def Let_def)
    moreover have "readable w (f\<lparr>stream := (stream f)\<lparr>rdbuf := filebuf_advance (Suc (length ?line)) (rdbuf (stream f))\<rparr>\<rparr>)"
      using g by (simp add: readable_def m fstream_fail_def fstream_good_def)
    ultimately show ?thesis
      by (simp add: avail_advance)
  qed
qed

lemma read_lines_loop_split_lines:
  assumes "readable w f"
  shows "fst (read_lines_loop w f acc) = acc @ split_lines (filebuf_avail w (rdbuf (stream f)))"
  using assms
proof (induction w f acc rule: read_lines_loop.induct)
  case (1 w f acc)
  show ?case
  proof (cases "filebuf_avail w (rdbuf (stream f)) = []")
    case True
    with read_line_at_end [OF "1.prems" True] show ?thesis
      by (cases "read_line w f") simp
  next
    case False
    from read_line_next [OF "1.prems" False] obtain f' where
      r: "read_line w f = (Some (takeWhile (\<lambda>c. c \<noteq> newline) (filebuf_avail w (rdbuf (stream f)))), f')"
      and f': "readable w f'"
      and a: "filebuf_avail w (rdbuf (stream f'))
               = drop (Suc (length (takeWhile (\<lambda>c. c \<noteq> newline) (filebuf_avail w (rdbuf (stream f))))))
                   (filebuf_avail w (rdbuf (stream f)))"
      by blast
    from "1.IH" [OF r [symmetric] refl f'] r a False show ?thesis
      by (subst split_lines.simps) simp
  qed
qed

lemma read_lines_split_lines:
  assumes "files w p = Some c"
  shows "fst (read_lines w p) = Inr (split_lines c)"
proof -
  let ?w = "w\<lparr>open_fds := insert (next_fd w) (open_fds w), next_fd := Suc (next_fd w)\<rparr>"
  let ?f = "\<lparr>stream = \<lparr>rdbuf = Some \<lparr>fd = next_fd w, fb_path = p,
                fb_mode = \<lparr>ios_binary = True, ios_in = True, ios_out = False,
                           ios_trunc = False, ios_app = False\<rparr>, fb_pos = 0\<rparr>,
              failbit = False, eofbit = False, badbit = False\<rparr>\<rparr>"
  from assms have n: "FileStream_new w p Read = (Inr ?f, ?w)"
    by (simp add: FileStream_new_Read)
  have "readable ?w ?f"
    by (simp add: readable_def fstream_fail_def)
  from read_lines_loop_split_lines [OF this, of "[]"] assms
  have "fst (read_lines_loop ?w ?f []) = split_lines c"
    by (simp add: filebuf_avail_def content_of_def)
  with n show ?thesis
    by (simp add: read_lines_def case_prod_beta)
qed

text \<open>
  C5. For every path: \<open>read_lines\<close> returns the empty sequence for an empty file, and the
  two lines \<^verbatim>\<open>x\<close> and \<^verbatim>\<open>y\<close>, in this order, both for a file holding \<^verbatim>\<open>x\ny\n\<close> and for a
  file holding \<^verbatim>\<open>x\ny\<close>. For every content, the result is the whole sequence of the lines
  of the file, in the order of the file.
\<close>

theorem read_lines_examples:
  "(files w p = Some [] \<longrightarrow> fst (read_lines w p) = Inr [])
   \<and> (files w p = Some [CHR ''x'', CHR 0x0A, CHR ''y'', CHR 0x0A]
        \<longrightarrow> fst (read_lines w p) = Inr [''x'', ''y''])
   \<and> (files w p = Some [CHR ''x'', CHR 0x0A, CHR ''y'']
        \<longrightarrow> fst (read_lines w p) = Inr [''x'', ''y''])
   \<and> (files w p = Some c \<longrightarrow> fst (read_lines w p) = Inr (split_lines c))"
proof (intro conjI impI)
  show "fst (read_lines w p) = Inr []" if "files w p = Some []"
    using that by (simp add: read_lines_def FileStream_new_Read read_line_defs)
  show "fst (read_lines w p) = Inr [''x'', ''y'']"
    if "files w p = Some [CHR ''x'', CHR 0x0A, CHR ''y'', CHR 0x0A]"
    using that by (simp add: read_lines_def FileStream_new_Read read_line_defs)
  show "fst (read_lines w p) = Inr [''x'', ''y'']"
    if "files w p = Some [CHR ''x'', CHR 0x0A, CHR ''y'']"
    using that by (simp add: read_lines_def FileStream_new_Read read_line_defs)
  show "fst (read_lines w p) = Inr (split_lines c)" if "files w p = Some c"
    using that by (rule read_lines_split_lines)
qed

theorem read_lines_examples_witness:
  "fst (read_lines \<lparr>files = [''e'' \<mapsto> []], unwritable = {}, open_fds = {}, next_fd = 3\<rparr> ''e'') = Inr []
   \<and> fst (read_lines \<lparr>files = [''f'' \<mapsto> [CHR ''x'', CHR 0x0A, CHR ''y'', CHR 0x0A]],
                       unwritable = {}, open_fds = {}, next_fd = 3\<rparr> ''f'') = Inr [''x'', ''y'']
   \<and> fst (read_lines \<lparr>files = [''g'' \<mapsto> [CHR ''x'', CHR 0x0A, CHR ''y'']],
                       unwritable = {}, open_fds = {}, next_fd = 3\<rparr> ''g'') = Inr [''x'', ''y'']
   \<and> fst (read_lines \<lparr>files = [''h'' \<mapsto> [CHR ''a'', CHR 0x0A, CHR 0x0A, CHR ''b'']],
                       unwritable = {}, open_fds = {}, next_fd = 3\<rparr> ''h'') = Inr [''a'', [], ''b'']"
  using read_lines_examples [of "\<lparr>files = [''e'' \<mapsto> []], unwritable = {}, open_fds = {}, next_fd = 3\<rparr>" "''e''"]
        read_lines_examples [of "\<lparr>files = [''f'' \<mapsto> [CHR ''x'', CHR 0x0A, CHR ''y'', CHR 0x0A]],
                                  unwritable = {}, open_fds = {}, next_fd = 3\<rparr>" "''f''"]
        read_lines_examples [of "\<lparr>files = [''g'' \<mapsto> [CHR ''x'', CHR 0x0A, CHR ''y'']],
                                  unwritable = {}, open_fds = {}, next_fd = 3\<rparr>" "''g''"]
        read_lines_examples [of "\<lparr>files = [''h'' \<mapsto> [CHR ''a'', CHR 0x0A, CHR 0x0A, CHR ''b'']],
                                  unwritable = {}, open_fds = {}, next_fd = 3\<rparr>" "''h''"
                                "[CHR ''a'', CHR 0x0A, CHR 0x0A, CHR ''b'']"]
  by (simp add: newline_def)

section \<open>Reading the whole file\<close>

lemmas read_all_defs = read_all_def fstream_fail_def seekg_off_def isentry_def tellg_def
  filebuf_seekoff_def fstream_read_def filebuf_avail_def filebuf_advance_def fstream_good_def

lemma read_all_readable:
  assumes "rdbuf (stream f) = Some b" and "ios_in (fb_mode b)" and "\<not> fstream_fail (stream f)"
  shows "read_all w f =
           (Inr (content_of w (fb_path b)),
            f\<lparr>stream := (stream f)\<lparr>rdbuf := Some (b\<lparr>fb_pos := length (content_of w (fb_path b))\<rparr>),
                                    eofbit := False\<rparr>\<rparr>)"
  using assms by (cases "content_of w (fb_path b) = []") (simp_all add: read_all_defs Let_def)

lemma computed_size:
  assumes "rdbuf (stream f) = Some b" and "\<not> fstream_fail (stream f)"
  shows "fst (tellg w (seekg_off w (stream f) 0 ios_end))
           = int (length (content_of w (fb_path b)))"
  using assms by (simp add: read_all_defs Let_def)

text \<open>
  C3, as the code has it. For every \<open>FileStream\<close> that is open with \<^verbatim>\<open>ios::in\<close> among its
  flags (modes \<open>Read\<close> and \<open>ReadWrite\<close>) and whose stream has neither \<^verbatim>\<open>failbit\<close> nor
  \<^verbatim>\<open>badbit\<close> set: the size that \<open>read_all\<close> computes by seeking to the end is the length of
  the file; the result is the content of the file, which is exactly that many bytes and is
  empty when the size is zero; and the position of the stream afterwards is the end of the
  content.
\<close>

theorem read_all_on_readable_stream:
  assumes "rdbuf (stream f) = Some b" and "ios_in (fb_mode b)" and "\<not> fstream_fail (stream f)"
  shows "fst (tellg w (seekg_off w (stream f) 0 ios_end))
           = int (length (content_of w (fb_path b)))
       \<and> fst (read_all w f) = Inr (content_of w (fb_path b))
       \<and> rdbuf (stream (snd (read_all w f)))
           = Some (b\<lparr>fb_pos := length (content_of w (fb_path b))\<rparr>)"
  using assms by (simp add: read_all_readable computed_size)

theorem read_all_on_readable_stream_witness:
  "rdbuf (stream abc_file) = Some abc_buf \<and> ios_in (fb_mode abc_buf)
   \<and> \<not> fstream_fail (stream abc_file)
   \<and> fst (read_all abc_opened abc_file) = Inr ''abc''
   \<and> rdbuf (stream (snd (read_all abc_opened abc_file))) = Some (abc_buf\<lparr>fb_pos := 3\<rparr>)"
proof -
  have h: "rdbuf (stream abc_file) = Some abc_buf" "ios_in (fb_mode abc_buf)"
    "\<not> fstream_fail (stream abc_file)"
    by (simp_all add: abc_defs fstream_fail_def)
  have c: "content_of abc_opened (fb_path abc_buf) = ''abc''"
    by (simp add: abc_defs content_of_def)
  from read_all_on_readable_stream [OF h, of abc_opened] h c show ?thesis
    by simp
qed

lemma abc_append_trace:
  "FileStream_new abc_world ''a.txt'' Append = (Inr abc_appending, abc_opened)"
  by (simp add: open_defs abc_defs Let_def)

text \<open>
  C3 as stated, for every open \<open>FileStream\<close>, fails in two ways. Open \<^verbatim>\<open>a.txt\<close> for reading
  and call \<open>read_line\<close> twice: the first call returns \<^verbatim>\<open>abc\<close> and meets the end of the file,
  the second returns nothing and leaves \<^verbatim>\<open>failbit\<close> set; the stream is still open, and
  \<open>read_all\<close> throws. Open \<^verbatim>\<open>a.txt\<close> in \<open>Append\<close> mode: the stream is open, and \<open>read_all\<close>
  returns three null bytes, not the content, and leaves the position at the start.
\<close>

theorem read_all_open_but_failed:
  "FileStream_new abc_world ''a.txt'' Read = (Inr abc_file, abc_opened)
   \<and> read_line abc_opened (snd (read_line abc_opened abc_file)) = (None, abc_at_eof)
   \<and> is_open abc_at_eof
   \<and> fst (read_all abc_opened abc_at_eof) = Inl (IOError ''File not open for reading'')
   \<and> FileStream_new abc_world ''a.txt'' Append = (Inr abc_appending, abc_opened)
   \<and> is_open abc_appending
   \<and> fst (read_all abc_opened abc_appending) = Inr [NUL, NUL, NUL]
   \<and> map_option fb_pos (rdbuf (stream (snd (read_all abc_opened abc_appending)))) = Some 0"
  by (intro conjI abc_trace(1) abc_trace(3) abc_append_trace)
     (simp_all add: abc_defs is_open_def fstream_is_open_def read_all_defs content_of_def
        Let_def numeral_3_eq_3)

lemma abc_write_trace:
  "FileStream_new abc_world ''a.txt'' Write = (Inr abc_writing, abc_truncated)"
  by (simp add: FileStream_new_Write abc_defs abc_writing_def abc_truncated_def)

text \<open>
  C6 at streams that are not open for reading. A stream just opened in \<open>Write\<close> mode, on
  \<^verbatim>\<open>a.txt\<close> and on any path that can be opened: \<open>read_all\<close> returns the empty string. The
  stream of \<^verbatim>\<open>a.txt\<close> opened in \<open>Append\<close> mode: \<open>read_all\<close> returns three null bytes. The
  stream left behind by a move: \<open>read_all\<close> returns the empty string. None throws: the guard
  of \<open>read_all\<close> tests the stream's error state, which none of them has set.
\<close>

theorem read_all_not_open_for_reading:
  "FileStream_new abc_world ''a.txt'' Write = (Inr abc_writing, abc_truncated)
   \<and> fst (read_all abc_truncated abc_writing) = Inr []
   \<and> (case FileStream_new w p Write of
      (Inl e, w') \<Rightarrow> p \<in> unwritable w
    | (Inr f, w') \<Rightarrow> fst (read_all w' f) = Inr [])
   \<and> FileStream_new abc_world ''a.txt'' Append = (Inr abc_appending, abc_opened)
   \<and> fst (read_all abc_opened abc_appending) = Inr [NUL, NUL, NUL]
   \<and> \<not> is_open (snd (FileStream_move abc_file))
   \<and> fst (read_all abc_opened (snd (FileStream_move abc_file))) = Inr []"
  by (intro conjI abc_append_trace abc_write_trace)
     (simp_all add: FileStream_new_Write read_all_defs abc_defs abc_writing_def
        abc_truncated_def FileStream_move_def fstream_move_def is_open_def fstream_is_open_def
        content_of_def Let_def numeral_3_eq_3)

section \<open>Error messages\<close>

text \<open>
  C7, as the code has it. The message of a failed open is \<^verbatim>\<open>IOError: Failed to open file: \<close>
  followed by the path, so it holds the path. The message of \<open>read_all\<close> and the message of
  \<open>write\<close> are fixed strings, which name the operation and nothing of the file.
\<close>

theorem IOError_messages:
  "(fst (FileStream_new w p m) = Inl e1
      \<longrightarrow> what e1 = ''IOError: Failed to open file: '' @ p \<and> sublist p (what e1))
   \<and> (fst (read_all w f) = Inl e2 \<longrightarrow> what e2 = ''IOError: File not open for reading'')
   \<and> (fst (write_value w f v) = Inl e3 \<longrightarrow> what e3 = ''IOError: File not open for writing'')"
proof (intro conjI impI)
  assume "fst (FileStream_new w p m) = Inl e1"
  then have "e1 = IOError (''Failed to open file: '' @ p)"
    by (auto simp: FileStream_new_def open_stream_def Let_def
          split: prod.splits if_splits sum.splits)
  then show "what e1 = ''IOError: Failed to open file: '' @ p"
    by (simp add: IOError_def)
  then show "sublist p (what e1)"
    by (metis sublist_appendI append_Nil2)
next
  assume "fst (read_all w f) = Inl e2"
  then show "what e2 = ''IOError: File not open for reading''"
    by (auto simp: read_all_def IOError_def Let_def split: if_splits prod.splits)
next
  assume "fst (write_value w f v) = Inl e3"
  then show "what e3 = ''IOError: File not open for writing''"
    by (auto simp: write_value_def IOError_def Let_def split: if_splits prod.splits)
qed

theorem IOError_messages_witness:
  "fst (FileStream_new abc_opened ''b.txt'' Read) = Inl (IOError ''Failed to open file: b.txt'')
   \<and> what (IOError ''Failed to open file: b.txt'') = ''IOError: Failed to open file: b.txt''
   \<and> sublist ''b.txt'' (what (IOError ''Failed to open file: b.txt''))
   \<and> fst (read_all abc_opened abc_at_eof) = Inl (IOError ''File not open for reading'')
   \<and> what (IOError ''File not open for reading'') = ''IOError: File not open for reading''
   \<and> fst (write_value abc_opened abc_at_eof ''x'') = Inl (IOError ''File not open for writing'')
   \<and> what (IOError ''File not open for writing'') = ''IOError: File not open for writing''"
proof -
  have a: "fst (FileStream_new abc_opened ''b.txt'' Read)
             = Inl (IOError ''Failed to open file: b.txt'')"
    by (simp add: FileStream_new_Read abc_defs)
  have b: "fst (read_all abc_opened abc_at_eof) = Inl (IOError ''File not open for reading'')"
    by (simp add: abc_defs read_all_def fstream_fail_def)
  have c: "fst (write_value abc_opened abc_at_eof ''x'')
             = Inl (IOError ''File not open for writing'')"
    by (simp add: abc_defs write_value_def fstream_fail_def)
  from IOError_messages [of abc_opened "''b.txt''" Read "IOError ''Failed to open file: b.txt''"
           abc_at_eof "IOError ''File not open for reading''" "''x''"
           "IOError ''File not open for writing''"]
       a b c
  show ?thesis
    by (simp add: sublist_Cons_right)
qed

text \<open>
  C7 as stated fails for \<open>read_all\<close>. The stream of \<^verbatim>\<open>a.txt\<close> that has failed in \<open>read_line\<close>
  makes \<open>read_all\<close> throw, and \<^verbatim>\<open>a.txt\<close> does not occur in the message of the error.
\<close>

theorem read_all_message_without_path:
  "read_line abc_opened (snd (read_line abc_opened abc_file)) = (None, abc_at_eof)
   \<and> map_option fb_path (rdbuf (stream abc_at_eof)) = Some ''a.txt''
   \<and> fst (read_all abc_opened abc_at_eof) = Inl (IOError ''File not open for reading'')
   \<and> \<not> sublist ''a.txt'' (what (IOError ''File not open for reading''))"
  by (intro conjI abc_trace(3))
     (simp_all add: abc_defs read_all_def fstream_fail_def IOError_def sublist_Cons_right)

section \<open>The position reported by tell\<close>

lemma size_t_minus_one: "unat (- 1 :: size_t) = 2 ^ 64 - 1" "(n :: size_t) \<le> - 1"
  by (simp_all add: unsigned_minus_1_eq_mask mask_eq_exp_minus_1)

lemma tell_minus_one:
  assumes "\<not> is_open f \<or> \<not> fstream_good (stream f)"
  shows "fst (tell w f) = - 1"
  using assms
  by (cases "rdbuf (stream f)")
     (auto simp: tell_def tellg_def isentry_def is_open_def fstream_is_open_def fstream_fail_def
       filebuf_seekoff_def fstream_good_def Let_def split: prod.splits if_splits)

text \<open>
  C9. When the stream holds no file (after a move) or is not in a good state, \<open>tellg\<close>
  answers \<open>-1\<close>, and \<open>tell\<close> returns its conversion to \<^verbatim>\<open>size_t\<close>: the value \<open>2^64 - 1\<close>,
  which no \<^verbatim>\<open>size_t\<close> exceeds. \<open>tell\<close> has no error result.
\<close>

theorem tell_unreportable_is_max:
  assumes "\<not> is_open f \<or> \<not> fstream_good (stream f)"
  shows "fst (tell w f) = word_of_int (- 1) \<and> unat (fst (tell w f)) = 2 ^ 64 - 1
       \<and> (\<forall>n :: size_t. n \<le> fst (tell w f))"
  using assms by (simp add: tell_minus_one size_t_minus_one)

theorem tell_unreportable_is_max_witness:
  "\<not> is_open (snd (FileStream_move abc_file))
   \<and> unat (fst (tell abc_opened (snd (FileStream_move abc_file)))) = 2 ^ 64 - 1
   \<and> \<not> fstream_good (stream abc_at_eof)
   \<and> unat (fst (tell abc_opened abc_at_eof)) = 2 ^ 64 - 1"
proof -
  have a: "\<not> is_open (snd (FileStream_move abc_file))"
    by (simp add: FileStream_move_def fstream_move_def is_open_def fstream_is_open_def)
  have b: "\<not> fstream_good (stream abc_at_eof)"
    by (simp add: abc_defs fstream_good_def)
  from tell_unreportable_is_max [of "snd (FileStream_move abc_file)" abc_opened]
       tell_unreportable_is_max [of abc_at_eof abc_opened] a b
  show ?thesis
    by (simp add: size_t_minus_one)
qed

section \<open>Ownership of handles\<close>

lemma owns_handle_at: "owns \<sigma> a h \<longleftrightarrow> handle_at \<sigma> a = Some h"
  by (auto simp: owns_def handle_at_def handle_of_def split: option.splits)

lemma ownership_own_inv:
  "ownership \<sigma> = own_inv (handle_at \<sigma>) (open_fds (env \<sigma>)) (next_fd (env \<sigma>))"
  by (simp add: ownership_def single_owner_def no_leak_def fds_below_next_def own_inv_def
      owns_handle_at)

lemma own_invI:
  assumes "\<And>x y h. H x = Some h \<Longrightarrow> H y = Some h \<Longrightarrow> x = y"
    and "\<And>h. h \<in> O' \<Longrightarrow> \<exists>x. H x = Some h"
    and "\<And>x h. H x = Some h \<Longrightarrow> h \<in> O'"
    and "\<And>h. h \<in> O' \<Longrightarrow> h < n"
  shows "own_inv H O' n"
  unfolding own_inv_def using assms by blast

lemma own_invD:
  assumes "own_inv H O' n"
  shows "H x = Some h \<Longrightarrow> H y = Some h \<Longrightarrow> x = y"
    and "h \<in> O' \<Longrightarrow> \<exists>x. H x = Some h"
    and "H x = Some h \<Longrightarrow> h \<in> O'"
    and "h \<in> O' \<Longrightarrow> h < n"
  using assms unfolding own_inv_def by blast+

lemma own_inv_fresh:
  assumes inv: "own_inv H O' n" and a: "H a = None"
  shows "own_inv (H(a := Some n)) (insert n O') (Suc n)"
proof (rule own_invI)
  have nn: "H x \<noteq> Some n" for x
    using own_invD(3,4) [OF inv] by (metis less_irrefl)
  show "x = y" if "(H(a := Some n)) x = Some h" "(H(a := Some n)) y = Some h" for x y h
    using that nn own_invD(1) [OF inv] by (auto split: if_splits)
  show "\<exists>x. (H(a := Some n)) x = Some h" if "h \<in> insert n O'" for h
  proof (cases "h = n")
    case True
    then show ?thesis by (auto intro: exI [of _ a])
  next
    case False
    with that obtain x where "H x = Some h" using own_invD(2) [OF inv] by auto
    with a have "x \<noteq> a" by auto
    with \<open>H x = Some h\<close> show ?thesis by (auto intro: exI [of _ x])
  qed
  show "h \<in> insert n O'" if "(H(a := Some n)) x = Some h" for x h
    using that own_invD(3) [OF inv] by (auto split: if_splits)
  show "h < Suc n" if "h \<in> insert n O'" for h
    using that own_invD(4) [OF inv] by (auto simp: less_Suc_eq)
qed

lemma own_inv_move:
  assumes inv: "own_inv H O' n" and a: "H a = None"
  shows "own_inv (H(b := None, a := H b)) O' n"
proof (rule own_invI)
  show "x = y" if "(H(b := None, a := H b)) x = Some h" "(H(b := None, a := H b)) y = Some h" for x y h
    using that own_invD(1) [OF inv] by (auto split: if_splits)
  show "\<exists>x. (H(b := None, a := H b)) x = Some h" if "h \<in> O'" for h
  proof -
    from that obtain x where x: "H x = Some h" using own_invD(2) [OF inv] by auto
    with a have "x \<noteq> a" by auto
    show ?thesis
    proof (cases "x = b")
      case True
      with x show ?thesis by (auto intro: exI [of _ a])
    next
      case False
      with x \<open>x \<noteq> a\<close> show ?thesis by (auto intro: exI [of _ x])
    qed
  qed
  show "h \<in> O'" if "(H(b := None, a := H b)) x = Some h" for x h
    using that own_invD(3) [OF inv] by (auto split: if_splits)
  show "h < n" if "h \<in> O'" for h
    using that own_invD(4) [OF inv] by auto
qed

lemma own_inv_assign:
  assumes inv: "own_inv H O' n" and ab: "a \<noteq> b"
  shows "own_inv (H(a := H b, b := None)) (O' - set_option (H a)) n"
proof (rule own_invI)
  let ?H = "H(a := H b, b := None)"
  show "x = y" if "?H x = Some h" "?H y = Some h" for x y h
    using that own_invD(1) [OF inv] by (auto split: if_splits)
  show "\<exists>x. ?H x = Some h" if "h \<in> O' - set_option (H a)" for h
  proof -
    from that obtain x where x: "H x = Some h" using own_invD(2) [OF inv] by auto
    from that have "H a \<noteq> Some h" by auto
    with x have "x \<noteq> a" by auto
    show ?thesis
    proof (cases "x = b")
      case True
      with x ab show ?thesis by (auto intro: exI [of _ a])
    next
      case False
      with x \<open>x \<noteq> a\<close> show ?thesis by (auto intro: exI [of _ x])
    qed
  qed
  show "h \<in> O' - set_option (H a)" if "?H x = Some h" for x h
  proof -
    from that ab obtain y where y: "H y = Some h" "y \<noteq> a"
      by (auto split: if_splits)
    then have "H a \<noteq> Some h" using own_invD(1) [OF inv] by metis
    with y own_invD(3) [OF inv] show ?thesis by (cases "H a") auto
  qed
  show "h < n" if "h \<in> O' - set_option (H a)" for h
    using that own_invD(4) [OF inv] by auto
qed

lemma own_inv_drop:
  assumes inv: "own_inv H O' n"
  shows "own_inv (H(a := None)) (O' - set_option (H a)) n"
proof (rule own_invI)
  let ?H = "H(a := None)"
  show "x = y" if "?H x = Some h" "?H y = Some h" for x y h
    using that own_invD(1) [OF inv] by (auto split: if_splits)
  show "\<exists>x. ?H x = Some h" if "h \<in> O' - set_option (H a)" for h
  proof -
    from that obtain x where x: "H x = Some h" using own_invD(2) [OF inv] by auto
    from that have "H a \<noteq> Some h" by auto
    with x have "x \<noteq> a" by auto
    with x show ?thesis by (auto intro: exI [of _ x])
  qed
  show "h \<in> O' - set_option (H a)" if "?H x = Some h" for x h
  proof -
    from that obtain y where y: "H y = Some h" "y \<noteq> a"
      by (auto split: if_splits)
    then have "H a \<noteq> Some h" using own_invD(1) [OF inv] by metis
    with y own_invD(3) [OF inv] show ?thesis by (cases "H a") auto
  qed
  show "h < n" if "h \<in> O' - set_option (H a)" for h
    using that own_invD(4) [OF inv] by auto
qed


lemma handle_seekg_off: "map_option fd (rdbuf (seekg_off w s off way)) = map_option fd (rdbuf s)"
  by (cases "rdbuf s")
     (auto simp: seekg_off_def isentry_def filebuf_seekoff_def Let_def split: prod.splits if_splits)

lemma handle_seekp_pos: "map_option fd (rdbuf (seekp_pos w s pos)) = map_option fd (rdbuf s)"
  by (cases "rdbuf s")
     (auto simp: seekp_pos_def osentry_def filebuf_seekoff_def Let_def split: prod.splits if_splits)

lemma handle_tellg: "map_option fd (rdbuf (snd (tellg w s))) = map_option fd (rdbuf s)"
  by (auto simp: tellg_def isentry_def Let_def split: prod.splits if_splits)

lemma handle_fstream_read: "map_option fd (rdbuf (snd (fstream_read w s n))) = map_option fd (rdbuf s)"
  by (cases "rdbuf s")
     (auto simp: fstream_read_def isentry_def filebuf_advance_def Let_def split: prod.splits if_splits)

lemma handle_getline: "map_option fd (rdbuf (snd (getline w s))) = map_option fd (rdbuf s)"
  by (cases "rdbuf s")
     (auto simp: getline_def isentry_def filebuf_advance_def Let_def split: prod.splits if_splits)

lemma put_string_keeps:
  "map_option fd (rdbuf (fst (put_string w s v))) = map_option fd (rdbuf s)"
  "open_fds (snd (put_string w s v)) = open_fds w"
  "next_fd (snd (put_string w s v)) = next_fd w"
  by (cases "rdbuf s";
      auto simp: put_string_def osentry_def filebuf_sputn_def Let_def split: prod.splits if_splits)+

lemma handle_read_all: "read_all w f = (r, f') \<Longrightarrow> handle_of f' = handle_of f"
proof -
  have "handle_of (snd (read_all w f)) = handle_of f"
    by (simp add: read_all_def handle_of_def Let_def case_prod_beta handle_seekg_off
        handle_tellg handle_fstream_read)
  then show "read_all w f = (r, f') \<Longrightarrow> handle_of f' = handle_of f"
    by simp
qed

lemma handle_read_line: "read_line w f = (r, f') \<Longrightarrow> handle_of f' = handle_of f"
  using handle_getline [of w "stream f"]
  by (auto simp: read_line_def handle_of_def Let_def split: prod.splits if_splits)

lemma write_value_keeps:
  assumes "write_value w f v = (r, f', w')"
  shows "handle_of f' = handle_of f \<and> open_fds w' = open_fds w \<and> next_fd w' = next_fd w"
  using assms put_string_keeps [of w "stream f" v]
  by (auto simp: write_value_def handle_of_def Let_def split: prod.splits if_splits)

lemma write_line_keeps:
  assumes "write_line w f v = (r, f', w')"
  shows "handle_of f' = handle_of f \<and> open_fds w' = open_fds w \<and> next_fd w' = next_fd w"
proof (cases "write_value w f v")
  case (fields r1 f1 w1)
  note k = write_value_keeps [OF fields]
  show ?thesis
  proof (cases r1)
    case (Inl e)
    with assms fields k show ?thesis by (simp add: write_line_def)
  next
    case (Inr u)
    with assms fields k put_string_keeps [of w1 "stream f1" "[newline]"] show ?thesis
      by (auto simp: write_line_def handle_of_def Let_def split: prod.splits)
  qed
qed

lemma handle_seek: "handle_of (seek w f pos) = handle_of f"
  by (simp add: seek_def handle_of_def Let_def handle_seekp_pos seekg_pos_def handle_seekg_off)

lemma handle_tell: "tell w f = (n, f') \<Longrightarrow> handle_of f' = handle_of f"
  using handle_tellg [of w "stream f"]
  by (auto simp: tell_def handle_of_def Let_def split: prod.splits)

lemma FileStream_new_handle:
  assumes "FileStream_new w p m = (Inr f, w')"
  shows "handle_of f = Some (next_fd w) \<and> open_fds w' = insert (next_fd w) (open_fds w)
       \<and> next_fd w' = Suc (next_fd w)"
  using assms
  by (cases m)
     (auto simp: open_defs handle_of_def Let_def split: prod.splits if_splits option.splits)

lemma FileStream_new_throws:
  assumes "FileStream_new w p m = (Inl e, w')"
  shows "w' = w"
  using assms
  by (cases m)
     (auto simp: open_defs handle_of_def Let_def split: prod.splits if_splits option.splits)

lemma FileStream_move_handle:
  assumes "FileStream_move other = (f, other')"
  shows "handle_of f = handle_of other \<and> handle_of other' = None"
  using assms by (auto simp: FileStream_move_def fstream_move_def handle_of_def)

lemma FileStream_delete_fds:
  "open_fds (FileStream_delete w f) = open_fds w - set_option (handle_of f)"
  "next_fd (FileStream_delete w f) = next_fd w"
  by (cases "rdbuf (stream f)";
      simp add: FileStream_delete_def fstream_is_open_def fstream_close_def handle_of_def)+

lemma FileStream_assign_handles:
  assumes "FileStream_assign w t ot = (t', o', w')"
  shows "handle_of t' = handle_of ot \<and> handle_of o' = None
       \<and> open_fds w' = open_fds w - set_option (handle_of t) \<and> next_fd w' = next_fd w"
  using assms
  by (cases "rdbuf (stream t)")
     (auto simp: FileStream_assign_def fstream_move_assign_def fstream_is_open_def
        fstream_close_def handle_of_def Let_def split: prod.splits)


lemma handle_at_env: "handle_at (\<sigma>\<lparr>env := w\<rparr>) = handle_at \<sigma>"
  by (rule ext) (simp add: handle_at_def)

lemma handle_at_put:
  "handle_at (\<sigma>\<lparr>objects := (objects \<sigma>)(a \<mapsto> f)\<rparr>) = (handle_at \<sigma>)(a := handle_of f)"
  "handle_at (\<sigma>\<lparr>env := w, objects := (objects \<sigma>)(a \<mapsto> f)\<rparr>) = (handle_at \<sigma>)(a := handle_of f)"
  by (rule ext, simp add: handle_at_def)+

lemma handle_at_put2:
  "handle_at (\<sigma>\<lparr>objects := (objects \<sigma>)(b \<mapsto> g, a \<mapsto> f)\<rparr>)
     = (handle_at \<sigma>)(b := handle_of g, a := handle_of f)"
  "handle_at (\<sigma>\<lparr>env := w, objects := (objects \<sigma>)(b \<mapsto> g, a \<mapsto> f)\<rparr>)
     = (handle_at \<sigma>)(b := handle_of g, a := handle_of f)"
  by (rule ext, simp add: handle_at_def)+

lemma handle_at_remove:
  "handle_at (\<sigma>\<lparr>env := w, objects := (objects \<sigma>)(a := None)\<rparr>) = (handle_at \<sigma>)(a := None)"
  by (rule ext) (simp add: handle_at_def)

lemma handle_at_Some: "objects \<sigma> a = Some f \<Longrightarrow> handle_at \<sigma> a = handle_of f"
  by (simp add: handle_at_def)

lemma handle_at_None: "a \<notin> dom (objects \<sigma>) \<Longrightarrow> handle_at \<sigma> a = None"
  by (auto simp: handle_at_def split: option.splits)

lemma ownership_same_handle:
  assumes "ownership \<sigma>" and "objects \<sigma> a = Some f" and "handle_of f' = handle_of f"
    and "open_fds w' = open_fds (env \<sigma>)" and "next_fd w' = next_fd (env \<sigma>)"
  shows "ownership (\<sigma>\<lparr>env := w', objects := (objects \<sigma>)(a \<mapsto> f')\<rparr>)"
proof -
  from assms(2,3) have "(handle_at \<sigma>)(a := handle_of f') = handle_at \<sigma>"
    by (auto simp: handle_at_Some)
  with assms(1,4,5) show ?thesis
    by (simp add: ownership_own_inv handle_at_put)
qed

lemma move_assign_effect:
  assumes "objects \<sigma> a = Some t" and "objects \<sigma> b = Some ot" and "a \<noteq> b"
  shows "handle_at (move_assign a b \<sigma>) = (handle_at \<sigma>)(a := handle_at \<sigma> b, b := None)"
    and "open_fds (env (move_assign a b \<sigma>)) = open_fds (env \<sigma>) - set_option (handle_at \<sigma> a)"
    and "next_fd (env (move_assign a b \<sigma>)) = next_fd (env \<sigma>)"
proof -
  obtain t' o' w' where fa: "FileStream_assign (env \<sigma>) t ot = (t', o', w')"
    by (cases "FileStream_assign (env \<sigma>) t ot")
  with assms have m: "move_assign a b \<sigma> = \<sigma>\<lparr>env := w', objects := (objects \<sigma>)(a \<mapsto> t', b \<mapsto> o')\<rparr>"
    by (simp add: move_assign_def)
  note h = FileStream_assign_handles [OF fa]
  from m h assms show "handle_at (move_assign a b \<sigma>) = (handle_at \<sigma>)(a := handle_at \<sigma> b, b := None)"
    by (simp add: handle_at_put2 handle_at_Some)
  from m h assms show "open_fds (env (move_assign a b \<sigma>)) = open_fds (env \<sigma>) - set_option (handle_at \<sigma> a)"
    by (simp add: handle_at_Some)
  from m h show "next_fd (env (move_assign a b \<sigma>)) = next_fd (env \<sigma>)"
    by simp
qed

lemma move_assign_self: "move_assign a a \<sigma> = \<sigma>"
  by (simp add: move_assign_def)

lemma move_assign_ownership:
  assumes "ownership \<sigma>" and "objects \<sigma> a = Some t" and "objects \<sigma> b = Some ot"
  shows "ownership (move_assign a b \<sigma>)"
proof (cases "a = b")
  case True
  with assms(1) show ?thesis by (simp add: move_assign_self)
next
  case False
  from assms(1) have "own_inv (handle_at \<sigma>) (open_fds (env \<sigma>)) (next_fd (env \<sigma>))"
    by (simp add: ownership_own_inv)
  from own_inv_assign [OF this False] show ?thesis
    by (simp add: ownership_own_inv move_assign_effect [OF assms(2,3) False])
qed

lemma own_inv_temporary:
  assumes inv: "own_inv H O' n"
  shows "own_inv H (insert n O' - {n}) (Suc n)"
proof -
  from own_invD(4) [OF inv] have "n \<notin> O'" by (metis less_irrefl)
  then have "insert n O' - {n} = O'" by auto
  moreover from inv have "own_inv H O' (Suc n)"
    unfolding own_inv_def by (auto simp: less_Suc_eq)
  ultimately show ?thesis by simp
qed

lemma handle_read_lines_loop:
  "handle_of (snd (read_lines_loop w f acc)) = handle_of f"
proof (induction w f acc rule: read_lines_loop.induct)
  case (1 w f acc)
  obtain r f' where r: "read_line w f = (r, f')"
    by (cases "read_line w f")
  note h = handle_read_line [OF r]
  show ?case
  proof (cases r)
    case None
    with r h show ?thesis by simp
  next
    case (Some line)
    with r h "1.IH" [OF r [symmetric] Some] show ?thesis by simp
  qed
qed

lemma read_file_fds: "read_file w p = (r, w') \<Longrightarrow> scoped_fds w w'"
proof -
  assume a: "read_file w p = (r, w')"
  obtain x w1 where n: "FileStream_new w p Read = (x, w1)"
    by (cases "FileStream_new w p Read")
  show ?thesis
  proof (cases x)
    case (Inl e)
    with n a FileStream_new_throws [of w p Read e w1] show ?thesis
      by (simp add: read_file_def scoped_fds_def)
  next
    case (Inr f)
    obtain r1 f1 where ra: "read_all w1 f = (r1, f1)"
      by (cases "read_all w1 f")
    from Inr n have k: "handle_of f = Some (next_fd w)"
      "open_fds w1 = insert (next_fd w) (open_fds w)" "next_fd w1 = Suc (next_fd w)"
      using FileStream_new_handle [of w p Read f w1] by simp_all
    from a n Inr ra have "w' = FileStream_delete w1 f1"
      by (simp add: read_file_def)
    with k handle_read_all [OF ra] show ?thesis
      by (simp add: scoped_fds_def FileStream_delete_fds)
  qed
qed

lemma write_to_new_fds:
  assumes "FileStream_new w p m = (x, w1)"
    and "w' = (case x of Inl e \<Rightarrow> w1
               | Inr f \<Rightarrow> (let (r, f', w'') = write_value w1 f v in FileStream_delete w'' f'))"
  shows "scoped_fds w w'"
proof (cases x)
  case (Inl e)
  with assms FileStream_new_throws [of w p m e w1] show ?thesis
    by (simp add: scoped_fds_def)
next
  case (Inr f)
  obtain r1 f1 w2 where wv: "write_value w1 f v = (r1, f1, w2)"
    by (cases "write_value w1 f v")
  from Inr assms(1) have k: "handle_of f = Some (next_fd w)"
    "open_fds w1 = insert (next_fd w) (open_fds w)" "next_fd w1 = Suc (next_fd w)"
    using FileStream_new_handle [of w p m f w1] by simp_all
  from assms(2) Inr wv have "w' = FileStream_delete w2 f1"
    by simp
  with k write_value_keeps [OF wv] show ?thesis
    by (simp add: scoped_fds_def FileStream_delete_fds)
qed

lemma write_file_fds: "write_file w p v = (u, w') \<Longrightarrow> scoped_fds w w'"
  by (rule write_to_new_fds [of w p Write "fst (FileStream_new w p Write)"
        "snd (FileStream_new w p Write)" w' v])
     (auto simp: write_file_def split: prod.splits sum.splits)

lemma append_file_fds: "append_file w p v = (u, w') \<Longrightarrow> scoped_fds w w'"
  by (rule write_to_new_fds [of w p Append "fst (FileStream_new w p Append)"
        "snd (FileStream_new w p Append)" w' v])
     (auto simp: append_file_def split: prod.splits sum.splits)

lemma read_lines_fds: "read_lines w p = (r, w') \<Longrightarrow> scoped_fds w w'"
proof -
  assume a: "read_lines w p = (r, w')"
  obtain x w1 where n: "FileStream_new w p Read = (x, w1)"
    by (cases "FileStream_new w p Read")
  show ?thesis
  proof (cases x)
    case (Inl e)
    with n a FileStream_new_throws [of w p Read e w1] show ?thesis
      by (simp add: read_lines_def scoped_fds_def)
  next
    case (Inr f)
    from Inr n have k: "handle_of f = Some (next_fd w)"
      "open_fds w1 = insert (next_fd w) (open_fds w)" "next_fd w1 = Suc (next_fd w)"
      using FileStream_new_handle [of w p Read f w1] by simp_all
    from a n Inr have "w' = FileStream_delete w1 (snd (read_lines_loop w1 f []))"
      by (simp add: read_lines_def case_prod_beta)
    with k handle_read_lines_loop [of w1 f "[]"] show ?thesis
      by (simp add: scoped_fds_def FileStream_delete_fds)
  qed
qed

lemma ownership_scoped:
  assumes "ownership \<sigma>" and "scoped_fds (env \<sigma>) w'"
  shows "ownership (\<sigma>\<lparr>env := w'\<rparr>)"
proof -
  from assms(1) have i: "own_inv (handle_at \<sigma>) (open_fds (env \<sigma>)) (next_fd (env \<sigma>))"
    by (simp add: ownership_own_inv)
  from assms(2) consider "open_fds w' = open_fds (env \<sigma>)" "next_fd w' = next_fd (env \<sigma>)"
    | "open_fds w' = insert (next_fd (env \<sigma>)) (open_fds (env \<sigma>)) - {next_fd (env \<sigma>)}"
      "next_fd w' = Suc (next_fd (env \<sigma>))"
    unfolding scoped_fds_def by blast
  then show ?thesis
  proof cases
    case 1
    with i show ?thesis by (simp add: ownership_own_inv handle_at_env)
  next
    case 2
    with own_inv_temporary [OF i] show ?thesis by (simp add: ownership_own_inv handle_at_env)
  qed
qed

lemma step_ownership:
  assumes "step \<sigma> \<sigma>'" and "ownership \<sigma>"
  shows "ownership \<sigma>'"
  using assms
proof (induction rule: step.induct)
  case (construct a \<sigma> path mode f w')
  then have "own_inv (handle_at \<sigma>) (open_fds (env \<sigma>)) (next_fd (env \<sigma>))"
    and "handle_at \<sigma> a = None"
    by (simp_all add: ownership_own_inv handle_at_None)
  from own_inv_fresh [OF this] FileStream_new_handle [OF construct(2)] show ?case
    by (simp add: ownership_own_inv handle_at_put)
next
  case (construct_throws \<sigma> path mode e w')
  from FileStream_new_throws [OF construct_throws(1)] construct_throws(2) show ?case
    by simp
next
  case (move_construct a \<sigma> b other f other')
  then have "own_inv (handle_at \<sigma>) (open_fds (env \<sigma>)) (next_fd (env \<sigma>))"
    and "handle_at \<sigma> a = None"
    by (simp_all add: ownership_own_inv handle_at_None)
  from own_inv_move [OF this, of b] FileStream_move_handle [OF move_construct(3)]
    move_construct(2)
  show ?case
    by (simp add: ownership_own_inv handle_at_put2 handle_at_Some)
next
  case (assign \<sigma> a t b other)
  then show ?case by (simp add: move_assign_ownership)
next
  case (destroy \<sigma> a f)
  then have "own_inv (handle_at \<sigma>) (open_fds (env \<sigma>)) (next_fd (env \<sigma>))"
    by (simp add: ownership_own_inv)
  from own_inv_drop [OF this, of a] destroy(1) show ?case
    by (simp add: ownership_own_inv handle_at_remove FileStream_delete_fds handle_at_Some)
next
  case (call_read_all \<sigma> a f r f')
  from ownership_same_handle [OF call_read_all(3,1) handle_read_all [OF call_read_all(2)], of "env \<sigma>"]
  show ?case by simp
next
  case (call_read_line \<sigma> a f l f')
  from ownership_same_handle [OF call_read_line(3,1) handle_read_line [OF call_read_line(2)], of "env \<sigma>"]
  show ?case by simp
next
  case (call_write \<sigma> a f v u f' w')
  from write_value_keeps [OF call_write(2)] ownership_same_handle [OF call_write(3,1), of f' w']
  show ?case by simp
next
  case (call_write_line \<sigma> a f v u f' w')
  from write_line_keeps [OF call_write_line(2)] ownership_same_handle [OF call_write_line(3,1), of f' w']
  show ?case by simp
next
  case (call_seek \<sigma> a f pos)
  from ownership_same_handle [OF call_seek(2,1) handle_seek, of "env \<sigma>" "env \<sigma>" pos]
  show ?case by simp
next
  case (call_tell \<sigma> a f n f')
  from ownership_same_handle [OF call_tell(3,1) handle_tell [OF call_tell(2)], of "env \<sigma>"]
  show ?case by simp
next
  case (call_read_file \<sigma> path r w')
  then show ?case by (simp add: ownership_scoped read_file_fds)
next
  case (call_write_file \<sigma> path v u w')
  then show ?case by (simp add: ownership_scoped write_file_fds)
next
  case (call_append_file \<sigma> path v u w')
  then show ?case by (simp add: ownership_scoped append_file_fds)
next
  case (call_read_lines \<sigma> path ls w')
  then show ?case by (simp add: ownership_scoped read_lines_fds)
qed

lemma reachable_ownership: "reachable \<sigma> \<Longrightarrow> ownership \<sigma>"
proof (induction rule: reachable.induct)
  case (start \<sigma>)
  then show ?case
    by (simp add: ownership_own_inv own_inv_def handle_at_def)
next
  case (after \<sigma> \<sigma>')
  then show ?case by (simp add: step_ownership)
qed


lemma reachable_one_object: "reachable one_object"
proof -
  have "reachable no_object"
    by (rule reachable.start) (simp_all add: no_object_def abc_defs)
  moreover have "step no_object one_object"
    using step.construct [of 1 no_object "''a.txt''" Read abc_file abc_opened]
    by (simp add: no_object_def one_object_def abc_trace)
  ultimately show ?thesis by (rule reachable.after)
qed

lemma reachable_after_move: "reachable after_move"
proof -
  have "step one_object after_move"
    using step.move_construct [of 2 one_object 1 abc_file abc_file
        "abc_file\<lparr>stream := (stream abc_file)\<lparr>rdbuf := None\<rparr>\<rparr>"]
    by (simp add: one_object_def after_move_def FileStream_move_def fstream_move_def
        fun_upd_twist)
  with reachable_one_object show ?thesis by (rule reachable.after)
qed

lemma reachable_two_objects: "reachable two_objects"
proof -
  have "step one_object two_objects"
    using step.construct [of 2 one_object "''b.txt''" Write b_file "env two_objects"]
    by (simp add: one_object_def two_objects_def FileStream_new_Write abc_defs b_file_def
        insert_commute fun_upd_twist)
  with reachable_one_object show ?thesis by (rule reachable.after)
qed

text \<open>
  C2. In every state a program can reach, no descriptor is owned by two objects: the class
  has no operation that copies a stream (copy construction and copy assignment are deleted,
  and \<open>step\<close> has no such case), and every operation it has keeps the discipline. After a
  move construction, \<open>is_open\<close> is false on the source and is on the new object what it was
  on the source, which is the object that now holds the source's descriptor.
\<close>

theorem exclusive_ownership:
  assumes "reachable \<sigma>"
  shows "single_owner \<sigma>
       \<and> \<not> is_open (snd (FileStream_move other))
       \<and> is_open (fst (FileStream_move other)) = is_open other
       \<and> handle_of (fst (FileStream_move other)) = handle_of other"
  using reachable_ownership [OF assms]
  by (simp add: ownership_def FileStream_move_def fstream_move_def is_open_def
      fstream_is_open_def handle_of_def)

theorem exclusive_ownership_witness:
  "reachable after_move \<and> single_owner after_move
   \<and> is_open abc_file
   \<and> \<not> is_open (snd (FileStream_move abc_file))
   \<and> is_open (fst (FileStream_move abc_file))"
proof -
  have "is_open abc_file"
    by (simp add: abc_defs is_open_def fstream_is_open_def)
  with exclusive_ownership [OF reachable_after_move, of abc_file] reachable_after_move
  show ?thesis by simp
qed

text \<open>
  C10. Move assignment between two live objects at different addresses closes the
  descriptor of the target, if it has one, and no other; the target then holds the
  descriptor of the source and the source holds none; the other objects are untouched; and
  the ownership discipline (one owner for each descriptor in use, no descriptor in use
  without an owner) is kept. Move assignment of an object to itself changes nothing.
\<close>

theorem move_assign_contract:
  assumes "objects \<sigma> a = Some t" and "objects \<sigma> b = Some ot"
  shows "(a \<noteq> b \<longrightarrow>
            open_fds (env (move_assign a b \<sigma>)) = open_fds (env \<sigma>) - set_option (handle_of t)
          \<and> handle_at (move_assign a b \<sigma>) a = handle_of ot
          \<and> handle_at (move_assign a b \<sigma>) b = None
          \<and> (\<forall>c. c \<noteq> a \<and> c \<noteq> b \<longrightarrow> objects (move_assign a b \<sigma>) c = objects \<sigma> c))
       \<and> (ownership \<sigma> \<longrightarrow> ownership (move_assign a b \<sigma>))
       \<and> move_assign a a \<sigma> = \<sigma>"
proof (intro conjI impI allI)
  assume ab: "a \<noteq> b"
  note e = move_assign_effect [OF assms ab]
  from e(2) assms(1) show "open_fds (env (move_assign a b \<sigma>))
      = open_fds (env \<sigma>) - set_option (handle_of t)"
    by (simp add: handle_at_Some)
  from e(1) ab assms(2) show "handle_at (move_assign a b \<sigma>) a = handle_of ot"
    by (simp add: handle_at_Some)
  from e(1) show "handle_at (move_assign a b \<sigma>) b = None"
    by simp
  fix c assume "c \<noteq> a \<and> c \<noteq> b"
  with assms ab show "objects (move_assign a b \<sigma>) c = objects \<sigma> c"
    by (simp add: move_assign_def split: prod.splits)
next
  assume "ownership \<sigma>"
  then show "ownership (move_assign a b \<sigma>)"
    using assms by (rule move_assign_ownership)
next
  show "move_assign a a \<sigma> = \<sigma>"
    by (rule move_assign_self)
qed

theorem move_assign_contract_witness:
  "objects two_objects 1 = Some abc_file \<and> objects two_objects 2 = Some b_file
   \<and> open_fds (env two_objects) = {3, 4}
   \<and> open_fds (env (move_assign 1 2 two_objects)) = {4}
   \<and> handle_at (move_assign 1 2 two_objects) 1 = Some 4
   \<and> handle_at (move_assign 1 2 two_objects) 2 = None
   \<and> ownership two_objects \<and> ownership (move_assign 1 2 two_objects)
   \<and> move_assign 1 1 two_objects = two_objects"
proof -
  have o: "objects two_objects 1 = Some abc_file" "objects two_objects 2 = Some b_file"
    by (simp_all add: two_objects_def)
  have h: "handle_of abc_file = Some 3" "handle_of b_file = Some 4"
    "open_fds (env two_objects) = {3, 4}"
    by (simp_all add: handle_of_def abc_defs b_file_def two_objects_def)
  have w: "ownership two_objects"
    by (rule reachable_ownership [OF reachable_two_objects])
  from move_assign_contract [OF o] o h w show ?thesis
    by auto
qed

section \<open>Reading a value from the console\<close>

lemma dropWhile_line:
  "newline \<notin> set line \<Longrightarrow>
     dropWhile (\<lambda>ch. ch \<noteq> newline) (line @ newline # rest) = newline # rest"
  by (induction line) auto

lemma cin_ignore_line_pending:
  assumes "cin_good c"
  shows "pending c = line @ newline # rest \<Longrightarrow> newline \<notin> set line
           \<Longrightarrow> pending (cin_ignore_line c) = rest"
    and "newline \<notin> set (pending c) \<Longrightarrow> pending (cin_ignore_line c) = []"
  using assms by (auto simp: cin_ignore_line_def dropWhile_line dropWhile_eq_Nil_conv)

lemma cin_ignore_line_exhausted:
  "pending c = [] \<Longrightarrow> pending (cin_ignore_line c) = []"
  by (simp add: cin_ignore_line_def)

text \<open>
  C8. For every extraction \<^verbatim>\<open>std::cin >> value\<close>, whatever the type: when it leaves the
  stream failed, \<open>Console::read\<close> throws \<open>IOError\<close>; otherwise it returns the value, and
  what is left of the current line, up to and including its newline, is discarded: if the
  input after the value is \<open>line @ newline # rest\<close>, the input after the call is \<open>rest\<close>,
  and if it has no newline nothing is left. The stream is taken to report the end of input
  (\<^verbatim>\<open>eofbit\<close>) only when the input is exhausted.
\<close>

theorem Console_read_contract:
  assumes "extract c = (v, c1)" and "cin_eofbit c1 \<longrightarrow> pending c1 = []"
  shows "(cin_fail c1 \<longrightarrow> Console_read extract c = (Inl (IOError console_value_msg), c1))
       \<and> (\<not> cin_fail c1 \<longrightarrow>
            fst (Console_read extract c) = Inr v
            \<and> (\<forall>line rest. pending c1 = line @ newline # rest \<and> newline \<notin> set line
                  \<longrightarrow> pending (snd (Console_read extract c)) = rest)
            \<and> (newline \<notin> set (pending c1) \<longrightarrow> pending (snd (Console_read extract c)) = []))"
proof (cases "cin_fail c1")
  case True
  with assms(1) show ?thesis by (simp add: Console_read_def)
next
  case False
  with assms(1) have r: "Console_read extract c = (Inr v, cin_ignore_line c1)"
    by (simp add: Console_read_def)
  show ?thesis
  proof (cases "cin_eofbit c1")
    case True
    with assms(2) have "pending c1 = []" by simp
    with False r show ?thesis by (simp add: cin_ignore_line_exhausted)
  next
    case eof: False
    with False have "cin_good c1" by (simp add: cin_good_def cin_fail_def)
    with False r show ?thesis
      by (auto simp: cin_ignore_line_pending)
  qed
qed

lemma extract_string_typed_42: "extract_string typed_42 = (''42'', after_42)"
  by (simp add: extract_string_def typed_42_def after_42_def cin_good_def isspace_def newline_def)

lemma extract_string_no_input:
  "extract_string no_input = ([], no_input\<lparr>cin_failbit := True, cin_eofbit := True\<rparr>)"
  by (simp add: extract_string_def no_input_def cin_good_def)

theorem Console_read_contract_witness:
  "extract_string typed_42 = (''42'', after_42)
   \<and> \<not> cin_eofbit after_42 \<and> \<not> cin_fail after_42
   \<and> fst (Console_read extract_string typed_42) = Inr ''42''
   \<and> pending (snd (Console_read extract_string typed_42)) = ''next line'' @ [newline]
   \<and> cin_fail (snd (extract_string no_input))
   \<and> fst (Console_read extract_string no_input) = Inl (IOError console_value_msg)"
proof -
  have a: "\<not> cin_eofbit after_42" "\<not> cin_fail after_42"
    "pending after_42 = '' tail'' @ newline # ''next line'' @ [newline]"
    "newline \<notin> set '' tail''"
    by (simp_all add: after_42_def cin_fail_def newline_def)
  from a(1) have h: "cin_eofbit after_42 \<longrightarrow> pending after_42 = []"
    by simp
  have b: "cin_fail (no_input\<lparr>cin_failbit := True, cin_eofbit := True\<rparr>)"
    "cin_eofbit (no_input\<lparr>cin_failbit := True, cin_eofbit := True\<rparr>)
       \<longrightarrow> pending (no_input\<lparr>cin_failbit := True, cin_eofbit := True\<rparr>) = []"
    by (simp_all add: no_input_def cin_fail_def)
  from Console_read_contract [of extract_string typed_42 "''42''" after_42,
         OF extract_string_typed_42 h] a
  have "fst (Console_read extract_string typed_42) = Inr ''42''"
    and "pending (snd (Console_read extract_string typed_42)) = ''next line'' @ [newline]"
    by blast+
  moreover from Console_read_contract [of extract_string no_input "[]"
         "no_input\<lparr>cin_failbit := True, cin_eofbit := True\<rparr>",
         OF extract_string_no_input b(2)] b(1)
  have "fst (Console_read extract_string no_input) = Inl (IOError console_value_msg)"
    by simp
  ultimately show ?thesis
    using a b extract_string_typed_42 extract_string_no_input by simp
qed


end
